theory Spec2Isabelle
  imports Complex_Main "HOL-Library.Word" "HOL-Library.AList" "HOL-Library.Monad_Syntax"
begin

unbundle bit_operations_syntax

section \<open>Packet model (lib/packets.py)\<close>

text \<open>
  A Python \<open>bytes\<close> value is a list of 8-bit words.  Python integers are unbounded and
  are modelled as \<open>int\<close>; a field only becomes a fixed-width value when \<open>struct.pack\<close>
  writes it, and \<open>struct.pack\<close> raises \<open>struct.error\<close> for a value outside the range of
  its format character.  A raised \<open>struct.error\<close> is the value \<open>None\<close>.

  A float field of a packet is written with the format character \<open>f\<close>.  The values that
  survive this are the IEEE-754 single precision values; such a value is identified here
  with its 32-bit pattern (type \<open>float32\<close>), so NaN comparison and the sign of zero are
  outside this model.
\<close>

type_synonym byte = "8 word"
type_synonym bytes = "byte list"
type_synonym float32 = "32 word"

definition PACKET_PREAMBLE :: int where "PACKET_PREAMBLE = 0xAA55"
definition MAX_PAYLOAD_SIZE :: int where "MAX_PAYLOAD_SIZE = 128"
definition HEADER_SIZE :: nat where "HEADER_SIZE = 5"

definition TELEMETRY :: int where "TELEMETRY = 1"
definition COMMAND :: int where "COMMAND = 2"
definition STATUS :: int where "STATUS = 3"
definition SENSOR_DATA :: int where "SENSOR_DATA = 4"
definition CONFIG :: int where "CONFIG = 5"
definition BULK_DATA :: int where "BULK_DATA = 6"
definition PING :: int where "PING = 7"
definition ACK :: int where "ACK = 8"
definition CUSTOM_MESSAGE :: int where "CUSTOM_MESSAGE = 9"

text \<open>The sizes are \<open>struct.calcsize\<close> of the payload format plus 2 for the CRC.\<close>

definition TELEMETRY_SIZE :: int where "TELEMETRY_SIZE = 25 + 2"
definition COMMAND_SIZE :: int where "COMMAND_SIZE = 4 + 2"
definition STATUS_SIZE :: int where "STATUS_SIZE = 6 + 2"
definition SENSOR_SIZE :: int where "SENSOR_SIZE = 13 + 2"
definition CONFIG_SIZE :: int where "CONFIG_SIZE = 3 + 2"
definition PING_SIZE :: int where "PING_SIZE = 4 + 2"
definition ACK_SIZE :: int where "ACK_SIZE = 4 + 2"
definition CUSTOM_MESSAGE_SIZE :: int where "CUSTOM_MESSAGE_SIZE = 126 + 2"

lemmas packet_consts =
  PACKET_PREAMBLE_def MAX_PAYLOAD_SIZE_def HEADER_SIZE_def
  TELEMETRY_def COMMAND_def STATUS_def SENSOR_DATA_def CONFIG_def BULK_DATA_def
  PING_def ACK_def CUSTOM_MESSAGE_def
  TELEMETRY_SIZE_def COMMAND_SIZE_def STATUS_SIZE_def SENSOR_SIZE_def CONFIG_SIZE_def
  PING_SIZE_def ACK_SIZE_def CUSTOM_MESSAGE_SIZE_def

record PacketHeader =
  preamble :: int
  payload_size :: int
  packet_type :: int
  network_id :: int

text \<open>
  The eight dataclasses with typed fields.  Every constructor takes the header first and
  the \<open>crc\<close> field last, in the order of the dataclass.  Bulk packets travel as raw
  \<open>bytes\<close>, which \<open>send_packet\<close> writes without calling \<open>pack_packet\<close>; they are not
  values of this type.
\<close>

datatype Packet =
    TelemetryPacket PacketHeader int float32 float32 float32 float32 float32 float32 int
  | CommandPacket PacketHeader int int int int
  | StatusPacket PacketHeader int int int int int
  | SensorPacket PacketHeader int float32 float32 float32 int
  | ConfigPacket PacketHeader int int int int
  | PingPacket PacketHeader int int
  | AckPacket PacketHeader int int int int
  | CustomMessagePacket PacketHeader bytes int

fun header :: "Packet \<Rightarrow> PacketHeader" where
  "header (TelemetryPacket h _ _ _ _ _ _ _ _) = h"
| "header (CommandPacket h _ _ _ _) = h"
| "header (StatusPacket h _ _ _ _ _) = h"
| "header (SensorPacket h _ _ _ _ _) = h"
| "header (ConfigPacket h _ _ _ _) = h"
| "header (PingPacket h _ _) = h"
| "header (AckPacket h _ _ _ _) = h"
| "header (CustomMessagePacket h _ _) = h"

fun crc :: "Packet \<Rightarrow> int" where
  "crc (TelemetryPacket _ _ _ _ _ _ _ _ c) = c"
| "crc (CommandPacket _ _ _ _ c) = c"
| "crc (StatusPacket _ _ _ _ _ c) = c"
| "crc (SensorPacket _ _ _ _ _ c) = c"
| "crc (ConfigPacket _ _ _ _ c) = c"
| "crc (PingPacket _ _ c) = c"
| "crc (AckPacket _ _ _ _ c) = c"
| "crc (CustomMessagePacket _ _ c) = c"

text \<open>The same packet with another value in its \<open>crc\<close> field.\<close>

fun with_crc :: "Packet \<Rightarrow> int \<Rightarrow> Packet" where
  "with_crc (TelemetryPacket h i x y z vx vy vz _) c = TelemetryPacket h i x y z vx vy vz c"
| "with_crc (CommandPacket h a b p _) c = CommandPacket h a b p c"
| "with_crc (StatusPacket h i s b e _) c = StatusPacket h i s b e c"
| "with_crc (SensorPacket h i v1 v2 v3 _) c = SensorPacket h i v1 v2 v3 c"
| "with_crc (ConfigPacket h n w t _) c = ConfigPacket h n w t c"
| "with_crc (PingPacket h t _) c = PingPacket h t c"
| "with_crc (AckPacket h a b s _) c = AckPacket h a b s c"
| "with_crc (CustomMessagePacket h d _) c = CustomMessagePacket h d c"

section \<open>The struct module, little-endian formats\<close>

fun le_bytes :: "nat \<Rightarrow> int \<Rightarrow> bytes" where
  "le_bytes 0 n = []"
| "le_bytes (Suc k) n = word_of_int (n mod 256) # le_bytes k (n div 256)"

fun le_int :: "bytes \<Rightarrow> int" where
  "le_int [] = 0"
| "le_int (b # bs) = uint b + 256 * le_int bs"

text \<open>\<open>struct.pack\<close> of one unsigned field of \<open>k\<close> bytes (\<open>B\<close>, \<open>H\<close>, \<open>I\<close>).\<close>

definition pack_uint :: "nat \<Rightarrow> int \<Rightarrow> bytes option" where
  "pack_uint k n = (if 0 \<le> n \<and> n < 256 ^ k then Some (le_bytes k n) else None)"

definition pack_f32 :: "float32 \<Rightarrow> bytes" where
  "pack_f32 w = le_bytes 4 (uint w)"

definition unpack_f32 :: "bytes \<Rightarrow> float32" where
  "unpack_f32 bs = word_of_int (le_int bs)"

text \<open>\<open>struct.pack("<126s", d)\<close> cuts \<open>d\<close> at 126 bytes and pads it with zero bytes.\<close>

definition pack_126s :: "bytes \<Rightarrow> bytes" where
  "pack_126s d = take 126 d @ replicate (126 - length d) 0"

text \<open>Python's slice \<open>data[i:j]\<close> for \<open>0 \<le> i \<le> j\<close>.\<close>

definition py_slice :: "nat \<Rightarrow> nat \<Rightarrow> 'a list \<Rightarrow> 'a list" where
  "py_slice i j xs = take (j - i) (drop i xs)"

text \<open>\<open>data[:-2]\<close> and \<open>data[-2:]\<close>.\<close>

definition but_last2 :: "'a list \<Rightarrow> 'a list" where
  "but_last2 xs = take (length xs - 2) xs"

definition last2 :: "'a list \<Rightarrow> 'a list" where
  "last2 xs = drop (length xs - 2) xs"

definition pack_header :: "PacketHeader \<Rightarrow> bytes option" where
  "pack_header h = do {
     a \<leftarrow> pack_uint 2 (preamble h);
     b \<leftarrow> pack_uint 1 (payload_size h);
     c \<leftarrow> pack_uint 1 (packet_type h);
     d \<leftarrow> pack_uint 1 (network_id h);
     Some (a @ b @ c @ d)
   }"

section \<open>Packet codec (lib/packet_codec.py)\<close>

text \<open>
  The running CRC starts at \<open>0xFFFF\<close>, is combined with bytes below 256 and is only
  shifted right, so it never leaves 16 bits: a 16-bit word holds it exactly.
\<close>

definition crc_bit :: "16 word \<Rightarrow> 16 word" where
  "crc_bit c = (if c AND 1 \<noteq> 0 then drop_bit 1 c XOR 0xA001 else drop_bit 1 c)"

primrec crc_bits :: "nat \<Rightarrow> 16 word \<Rightarrow> 16 word" where
  "crc_bits 0 c = c"
| "crc_bits (Suc n) c = crc_bits n (crc_bit c)"

definition crc_byte :: "16 word \<Rightarrow> byte \<Rightarrow> 16 word" where
  "crc_byte c b = crc_bits 8 (c XOR ucast b)"

definition calculate_crc16 :: "bytes \<Rightarrow> int" where
  "calculate_crc16 data = uint (foldl crc_byte 0xFFFF (but_last2 data) AND 0xFFFF)"

text \<open>The payload of each packet kind, without header and CRC.\<close>

fun pack_data :: "Packet \<Rightarrow> bytes option" where
  "pack_data (TelemetryPacket h i x y z vx vy vz c) = do {
     a \<leftarrow> pack_uint 1 i;
     Some (a @ pack_f32 x @ pack_f32 y @ pack_f32 z @ pack_f32 vx @ pack_f32 vy @ pack_f32 vz)
   }"
| "pack_data (CommandPacket h command_id target_id param c) = do {
     a \<leftarrow> pack_uint 1 command_id;
     b \<leftarrow> pack_uint 1 target_id;
     p \<leftarrow> pack_uint 2 param;
     Some (a @ b @ p)
   }"
| "pack_data (StatusPacket h i status_code battery_mv error_flags c) = do {
     a \<leftarrow> pack_uint 1 i;
     b \<leftarrow> pack_uint 1 status_code;
     m \<leftarrow> pack_uint 2 battery_mv;
     e \<leftarrow> pack_uint 2 error_flags;
     Some (a @ b @ m @ e)
   }"
| "pack_data (SensorPacket h sensor_id v1 v2 v3 c) = do {
     a \<leftarrow> pack_uint 1 sensor_id;
     Some (a @ pack_f32 v1 @ pack_f32 v2 @ pack_f32 v3)
   }"
| "pack_data (ConfigPacket h n wifi_channel tx_power c) = do {
     a \<leftarrow> pack_uint 1 n;
     b \<leftarrow> pack_uint 1 wifi_channel;
     t \<leftarrow> pack_uint 1 tx_power;
     Some (a @ b @ t)
   }"
| "pack_data (PingPacket h timestamp c) = pack_uint 4 timestamp"
| "pack_data (AckPacket h ack_type ack_id status c) = do {
     a \<leftarrow> pack_uint 1 ack_type;
     b \<leftarrow> pack_uint 1 ack_id;
     s \<leftarrow> pack_uint 2 status;
     Some (a @ b @ s)
   }"
| "pack_data (CustomMessagePacket h custom_data c) = Some (pack_126s custom_data)"

definition pack_packet :: "Packet \<Rightarrow> bytes option" where
  "pack_packet packet = do {
     hdr \<leftarrow> pack_header (header packet);
     data \<leftarrow> pack_data packet;
     let temp_packet = hdr @ data @ [0, 0];
     let c = calculate_crc16 temp_packet;
     t \<leftarrow> pack_uint 2 c;
     Some (hdr @ data @ t)
   }"

text \<open>
  What \<open>unpack_packet\<close> returns when it does not return \<open>None\<close>: a typed packet, or
  for \<open>BULK_DATA\<close> the raw payload without its CRC.
\<close>

datatype Unpacked = Typed Packet | Bulk bytes

text \<open>
  \<open>struct.unpack\<close> raises \<open>struct.error\<close> unless the buffer has exactly the size of the
  format; \<open>unpack_packet\<close> catches it and returns \<open>None\<close>.
\<close>

definition unpack_typed :: "PacketHeader \<Rightarrow> bytes \<Rightarrow> int \<Rightarrow> Unpacked option" where
  "unpack_typed h body received_crc =
    (if packet_type h = TELEMETRY then
       if payload_size h \<noteq> TELEMETRY_SIZE then None
       else if length body \<noteq> 25 then None
       else Some (Typed (TelemetryPacket h (le_int (py_slice 0 1 body))
              (unpack_f32 (py_slice 1 5 body)) (unpack_f32 (py_slice 5 9 body))
              (unpack_f32 (py_slice 9 13 body)) (unpack_f32 (py_slice 13 17 body))
              (unpack_f32 (py_slice 17 21 body)) (unpack_f32 (py_slice 21 25 body)) received_crc))
     else if packet_type h = COMMAND then
       if payload_size h \<noteq> COMMAND_SIZE then None
       else if length body \<noteq> 4 then None
       else Some (Typed (CommandPacket h (le_int (py_slice 0 1 body)) (le_int (py_slice 1 2 body))
              (le_int (py_slice 2 4 body)) received_crc))
     else if packet_type h = STATUS then
       if payload_size h \<noteq> STATUS_SIZE then None
       else if length body \<noteq> 6 then None
       else Some (Typed (StatusPacket h (le_int (py_slice 0 1 body)) (le_int (py_slice 1 2 body))
              (le_int (py_slice 2 4 body)) (le_int (py_slice 4 6 body)) received_crc))
     else if packet_type h = SENSOR_DATA then
       if payload_size h \<noteq> SENSOR_SIZE then None
       else if length body \<noteq> 13 then None
       else Some (Typed (SensorPacket h (le_int (py_slice 0 1 body))
              (unpack_f32 (py_slice 1 5 body)) (unpack_f32 (py_slice 5 9 body))
              (unpack_f32 (py_slice 9 13 body)) received_crc))
     else if packet_type h = CONFIG then
       if payload_size h \<noteq> CONFIG_SIZE then None
       else if length body \<noteq> 3 then None
       else Some (Typed (ConfigPacket h (le_int (py_slice 0 1 body)) (le_int (py_slice 1 2 body))
              (le_int (py_slice 2 3 body)) received_crc))
     else if packet_type h = BULK_DATA then Some (Bulk body)
     else if packet_type h = PING then
       if payload_size h \<noteq> PING_SIZE then None
       else if length body \<noteq> 4 then None
       else Some (Typed (PingPacket h (le_int body) received_crc))
     else if packet_type h = ACK then
       if payload_size h \<noteq> ACK_SIZE then None
       else if length body \<noteq> 4 then None
       else Some (Typed (AckPacket h (le_int (py_slice 0 1 body)) (le_int (py_slice 1 2 body))
              (le_int (py_slice 2 4 body)) received_crc))
     else if packet_type h = CUSTOM_MESSAGE then
       if payload_size h \<noteq> CUSTOM_MESSAGE_SIZE then None
       else if length body \<noteq> 126 then None
       else Some (Typed (CustomMessagePacket h body received_crc))
     else None)"

definition unpack_packet :: "PacketHeader \<Rightarrow> bytes \<Rightarrow> Unpacked option" where
  "unpack_packet h payload =
    (if length payload < 2 then None
     else
       let received_crc = le_int (last2 payload) in
       case pack_header h of
         None \<Rightarrow> None
       | Some hdr \<Rightarrow>
           let full_data = hdr @ but_last2 payload @ [0, 0];
               calculated_crc = calculate_crc16 full_data
           in if calculated_crc \<noteq> received_crc then None
              else unpack_typed h (but_last2 payload) received_crc)"

text \<open>
  The precondition of the round trip: every integer field is in the range of its format
  character, the header carries the preamble, the size and the type tag of the packet's
  kind, and \<open>custom_data\<close> has exactly 126 bytes.
\<close>
definition u8 :: "int \<Rightarrow> bool" where "u8 n = (0 \<le> n \<and> n < 256)"
definition u16 :: "int \<Rightarrow> bool" where "u16 n = (0 \<le> n \<and> n < 65536)"
definition u32 :: "int \<Rightarrow> bool" where "u32 n = (0 \<le> n \<and> n < 4294967296)"

definition header_ok :: "PacketHeader \<Rightarrow> int \<Rightarrow> int \<Rightarrow> bool" where
  "header_ok h t sz =
     (preamble h = PACKET_PREAMBLE \<and> payload_size h = sz \<and> packet_type h = t \<and> u8 (network_id h))"

fun wire_ok :: "Packet \<Rightarrow> bool" where
  "wire_ok (TelemetryPacket h i x y z vx vy vz c) = (header_ok h TELEMETRY TELEMETRY_SIZE \<and> u8 i)"
| "wire_ok (CommandPacket h a b p c) = (header_ok h COMMAND COMMAND_SIZE \<and> u8 a \<and> u8 b \<and> u16 p)"
| "wire_ok (StatusPacket h i s b e c) =
     (header_ok h STATUS STATUS_SIZE \<and> u8 i \<and> u8 s \<and> u16 b \<and> u16 e)"
| "wire_ok (SensorPacket h i v1 v2 v3 c) = (header_ok h SENSOR_DATA SENSOR_SIZE \<and> u8 i)"
| "wire_ok (ConfigPacket h n w t c) = (header_ok h CONFIG CONFIG_SIZE \<and> u8 n \<and> u8 w \<and> u8 t)"
| "wire_ok (PingPacket h t c) = (header_ok h PING PING_SIZE \<and> u32 t)"
| "wire_ok (AckPacket h a b s c) = (header_ok h ACK ACK_SIZE \<and> u8 a \<and> u8 b \<and> u16 s)"
| "wire_ok (CustomMessagePacket h d c) =
     (header_ok h CUSTOM_MESSAGE CUSTOM_MESSAGE_SIZE \<and> length d = 126)"

text \<open>
  The size that \<open>unpack_packet\<close> demands of \<open>payload_size\<close> for each packet type, read
  off its branches; \<open>BULK_DATA\<close> and the unknown types have none.
\<close>

definition expected_size :: "int \<Rightarrow> int option" where
  "expected_size t =
    (if t = TELEMETRY then Some TELEMETRY_SIZE
     else if t = COMMAND then Some COMMAND_SIZE
     else if t = STATUS then Some STATUS_SIZE
     else if t = SENSOR_DATA then Some SENSOR_SIZE
     else if t = CONFIG then Some CONFIG_SIZE
     else if t = BULK_DATA then None
     else if t = PING then Some PING_SIZE
     else if t = ACK then Some ACK_SIZE
     else if t = CUSTOM_MESSAGE then Some CUSTOM_MESSAGE_SIZE
     else None)"

section \<open>Link framer (link.py)\<close>

text \<open>\<open>bytes.find\<close>: the lowest index where \<open>sub\<close> starts, or \<open>-1\<close>.\<close>

fun find_from :: "bytes \<Rightarrow> bytes \<Rightarrow> nat \<Rightarrow> int" where
  "find_from sub [] i = (if sub = [] then int i else -1)"
| "find_from sub (b # bs) i =
     (if take (length sub) (b # bs) = sub then int i else find_from sub bs (Suc i))"

definition find_bytes :: "bytes \<Rightarrow> bytes \<Rightarrow> int" where
  "find_bytes buf sub = find_from sub buf 0"

definition preamble_bytes :: bytes where
  "preamble_bytes = le_bytes 2 PACKET_PREAMBLE"

text \<open>
  The part of \<open>ESP32Link\<close> that the receive path reads and writes: the receive buffer,
  the totals of the UART statistics, and a log of the packets handed to
  \<open>_handle_received_packet\<close>, in order.  The per-type counters, the automatic ACK and
  the user callbacks do not feed back into extraction and are left out.
\<close>

record Link =
  rx_buffer :: bytes
  packets_received :: int
  bytes_received :: int
  packets_corrupted :: int
  delivered :: "Unpacked list"

text \<open>
  \<open>_extract_packet\<close>: the returned packet bytes (\<open>None\<close> when the method returns
  \<open>None\<close>) and the buffer it leaves.  The header slice always has \<open>HEADER_SIZE\<close> bytes,
  so its \<open>struct.unpack\<close> cannot fail.
\<close>

definition extract_packet :: "bytes \<Rightarrow> bytes option \<times> bytes" where
  "extract_packet buf =
    (if length buf < HEADER_SIZE then (None, buf)
     else
       let preamble_pos = find_bytes buf preamble_bytes in
       if preamble_pos = -1 then
         (None, if length buf > 1 then drop (length buf - 1) buf else buf)
       else
         let buf1 = (if preamble_pos > 0 then drop (nat preamble_pos) buf else buf) in
         if length buf1 < HEADER_SIZE then (None, buf1)
         else
           let header_data = take HEADER_SIZE buf1;
               pre = le_int (py_slice 0 2 header_data);
               size = le_int (py_slice 2 3 header_data)
           in if pre \<noteq> PACKET_PREAMBLE then (None, drop 1 buf1)
              else if size < 2 \<or> size > MAX_PAYLOAD_SIZE then (None, drop 1 buf1)
              else
                let total_packet_size = HEADER_SIZE + nat size in
                if length buf1 < total_packet_size then (None, buf1)
                else (Some (take total_packet_size buf1), drop total_packet_size buf1))"

text \<open>Python's truth value of what \<open>unpack_packet\<close> returned (\<open>if packet:\<close>).\<close>

fun truthy :: "Unpacked option \<Rightarrow> bool" where
  "truthy None = False"
| "truthy (Some (Bulk bs)) = (bs \<noteq> [])"
| "truthy (Some (Typed p)) = True"

definition handle_packet :: "bytes \<Rightarrow> Link \<Rightarrow> Link" where
  "handle_packet packet_data l =
    (let header_data = take HEADER_SIZE packet_data;
         size = le_int (py_slice 2 3 header_data);
         header_obj = \<lparr>preamble = le_int (py_slice 0 2 header_data),
                       payload_size = size,
                       packet_type = le_int (py_slice 3 4 header_data),
                       network_id = le_int (py_slice 4 5 header_data)\<rparr>;
         payload = drop HEADER_SIZE packet_data;
         packet = unpack_packet header_obj payload
     in if truthy packet then
          l\<lparr>packets_received := packets_received l + 1,
            bytes_received := bytes_received l + (int HEADER_SIZE + size),
            delivered := delivered l @ [the packet]\<rparr>
        else l\<lparr>packets_corrupted := packets_corrupted l + 1\<rparr>)"

lemma rx_buffer_handle_packet [simp]: "rx_buffer (handle_packet d l) = rx_buffer l"
  by (simp add: handle_packet_def Let_def)

lemma extract_packet_shrinks:
  assumes "extract_packet buf = (Some d, buf')"
  shows "length buf' < length buf"
proof -
  define buf1 where "buf1 =
    (if find_bytes buf preamble_bytes > 0 then drop (nat (find_bytes buf preamble_bytes)) buf
     else buf)"
  define n where "n = HEADER_SIZE + nat (le_int (py_slice 2 3 (take HEADER_SIZE buf1)))"
  have "buf' = drop n buf1 \<and> n \<le> length buf1"
    using assms by (simp add: extract_packet_def Let_def buf1_def n_def split: if_splits)
  moreover have "0 < n"
    by (simp add: n_def HEADER_SIZE_def)
  moreover have "length buf1 \<le> length buf"
    by (simp add: buf1_def)
  ultimately show ?thesis
    by (simp, linarith)
qed

text \<open>The \<open>while True\<close> loop of \<open>_process_received_data\<close>.\<close>

function process_loop :: "Link \<Rightarrow> Link" where
  "process_loop l =
    (case extract_packet (rx_buffer l) of
       (None, buf) \<Rightarrow> l\<lparr>rx_buffer := buf\<rparr>
     | (Some packet_data, buf) \<Rightarrow> process_loop (handle_packet packet_data (l\<lparr>rx_buffer := buf\<rparr>)))"
  by pat_completeness auto
termination
  by (relation "measure (\<lambda>l. length (rx_buffer l))")
    (auto dest: extract_packet_shrinks [OF sym])

definition process_received_data :: "bytes \<Rightarrow> Link \<Rightarrow> Link" where
  "process_received_data data l = process_loop (l\<lparr>rx_buffer := rx_buffer l @ data\<rparr>)"

section \<open>Presence table (drone_data.py, drone.py)\<close>

text \<open>
  The coordinate type is a parameter: the table built from decoded packets holds the
  packets' \<open>float32\<close> values, the control law computes on real numbers.  The fields of
  \<open>DronePosition\<close> carry the prefix \<open>pos_\<close>, since \<open>x\<close>, \<open>y\<close>, ... would otherwise be
  taken as constants everywhere below.  Clock readings (\<open>time.time()\<close>) are real numbers
  passed in as \<open>current_time\<close>.
\<close>

record 'f DronePosition =
  pos_x :: 'f
  pos_y :: 'f
  pos_z :: 'f
  pos_vx :: 'f
  pos_vy :: 'f
  pos_vz :: 'f
  pos_yaw :: 'f
  pos_yaw_rate :: 'f
  frame_id :: string

text \<open>The dataclass constructor with its defaults for yaw, yaw rate and frame.\<close>

definition new_position :: "'f \<Rightarrow> 'f \<Rightarrow> 'f \<Rightarrow> 'f \<Rightarrow> 'f \<Rightarrow> 'f \<Rightarrow> ('f::zero) DronePosition" where
  "new_position x y z vx vy vz =
     \<lparr>pos_x = x, pos_y = y, pos_z = z, pos_vx = vx, pos_vy = vy, pos_vz = vz,
      pos_yaw = 0, pos_yaw_rate = 0, frame_id = ''aruco_map''\<rparr>"

datatype DroneDiscoveryMethod = VIA_TELEMETRY | VIA_STATUS

record 'f DroneInfo =
  drone_id :: int
  position :: "'f DronePosition"
  last_seen :: real
  discovered_via :: DroneDiscoveryMethod

text \<open>
  The dictionary \<open>_other_drones\<close> is an association list in insertion order; assignment
  to a key is \<open>AList.update\<close>, \<open>del\<close> is \<open>AList.delete\<close>, lookup is \<open>map_of\<close>.
\<close>

record 'f Drone =
  self_drone_id :: int
  other_drones :: "(int \<times> 'f DroneInfo) list"
  drone_expiry_timeout :: real

fun handle_telemetry_packet :: "real \<Rightarrow> Packet \<Rightarrow> float32 Drone \<Rightarrow> float32 Drone" where
  "handle_telemetry_packet current_time (TelemetryPacket h i x y z vx vy vz c) d =
    (if i \<noteq> self_drone_id d then
       let pos = new_position x y z vx vy vz
       in d\<lparr>other_drones := AList.update i
              \<lparr>drone_id = i, position = pos, last_seen = current_time,
               discovered_via = VIA_TELEMETRY\<rparr> (other_drones d)\<rparr>
     else d)"
| "handle_telemetry_packet current_time _ d = d"

fun handle_status_packet :: "real \<Rightarrow> Packet \<Rightarrow> 'f Drone \<Rightarrow> 'f Drone" where
  "handle_status_packet current_time (StatusPacket h i status_code battery_mv error_flags c) d =
    (if i \<noteq> self_drone_id d then
       case map_of (other_drones d) i of
         Some info \<Rightarrow>
           d\<lparr>other_drones := AList.update i (info\<lparr>last_seen := current_time\<rparr>) (other_drones d)\<rparr>
       | None \<Rightarrow> d
     else d)"
| "handle_status_packet current_time _ d = d"

definition cleanup_expired_drones :: "real \<Rightarrow> 'f Drone \<Rightarrow> 'f Drone" where
  "cleanup_expired_drones current_time d =
    (let expired_drones =
           map fst (filter (\<lambda>(i, info). current_time - last_seen info > drone_expiry_timeout d)
                      (other_drones d))
     in d\<lparr>other_drones :=
            foldl (\<lambda>tbl i. if map_of tbl i \<noteq> None then AList.delete i tbl else tbl)
              (other_drones d) expired_drones\<rparr>)"

definition set_drone_expiry_timeout :: "real \<Rightarrow> 'f Drone \<Rightarrow> 'f Drone" where
  "set_drone_expiry_timeout timeout d = d\<lparr>drone_expiry_timeout := max 1.0 timeout\<rparr>"

section \<open>Force-field control law (collision_avoidance/force_avoidance.py)\<close>

text \<open>
  Python floats are idealised as real numbers: rounding, overflow, infinities and NaN are
  outside this model.  What can still raise is written out: a division raises
  \<open>ZeroDivisionError\<close> on a zero divisor, \<open>math.sqrt\<close> raises \<open>ValueError\<close> on a
  negative argument, and a negative base under the non-integer \<open>FORCE_EXPONENT\<close> gives
  a complex number that \<open>math.exp\<close> refuses with \<open>TypeError\<close>.  A raised exception is
  the value \<open>None\<close>.  The warning that is logged when repulsion exceeds attraction reads
  the clock and the forces but changes nothing that is returned; it is left out.
\<close>

definition COLLISION_RADIUS :: real where "COLLISION_RADIUS = 0.15"
definition FORCE_EXPONENT :: real where "FORCE_EXPONENT = 1.45"
definition MAX_SPEED :: real where "MAX_SPEED = 1.5"
definition MAX_ACCELERATION :: real where "MAX_ACCELERATION = 3.0"
definition REPULSION_STRENGTH :: real where "REPULSION_STRENGTH = 5000.0"
definition ATTRACTION_STRENGTH :: real where "ATTRACTION_STRENGTH = 50.0"
definition ARRIVAL_RADIUS :: real where "ARRIVAL_RADIUS = 0.75"
definition TARGET_THRESHOLD :: real where "TARGET_THRESHOLD = 0.2"
definition TARGET_SPEED_THRESHOLD :: real where "TARGET_SPEED_THRESHOLD = 0.1"
definition BASE_DAMPING :: real where "BASE_DAMPING = 0.1"
definition FORCE_DAMPING_FACTOR :: real where "FORCE_DAMPING_FACTOR = 0.05"
definition MAX_DAMPING :: real where "MAX_DAMPING = 0.25"

lemmas avoidance_consts =
  COLLISION_RADIUS_def FORCE_EXPONENT_def MAX_SPEED_def MAX_ACCELERATION_def
  REPULSION_STRENGTH_def ATTRACTION_STRENGTH_def ARRIVAL_RADIUS_def TARGET_THRESHOLD_def
  TARGET_SPEED_THRESHOLD_def BASE_DAMPING_def FORCE_DAMPING_FACTOR_def MAX_DAMPING_def

definition py_div :: "real \<Rightarrow> real \<Rightarrow> real option" where
  "py_div a b = (if b = 0 then None else Some (a / b))"

definition math_sqrt :: "real \<Rightarrow> real option" where
  "math_sqrt a = (if a < 0 then None else Some (sqrt a))"

text \<open>\<open>math.exp(-(b ** FORCE_EXPONENT))\<close>.\<close>

definition exp_neg_pow :: "real \<Rightarrow> real option" where
  "exp_neg_pow b = (if b < 0 then None else Some (exp (- (b powr FORCE_EXPONENT))))"

definition calculate_repulsion_force :: "real \<Rightarrow> real option" where
  "calculate_repulsion_force distance =
    (if distance \<ge> COLLISION_RADIUS * 10 then Some 0
     else if distance < COLLISION_RADIUS then Some 0
     else do {
       d \<leftarrow> py_div distance COLLISION_RADIUS;
       e \<leftarrow> exp_neg_pow (d - 1);
       Some (REPULSION_STRENGTH * e)
     })"

text \<open>
  Lines 53 to 69: the distance to the target and the attraction force.  \<open>** 1.0\<close> returns
  its base and is not written.
\<close>

definition attraction ::
  "real DronePosition \<Rightarrow> real DronePosition \<Rightarrow> (real \<times> real \<times> real) option" where
  "attraction my_pos target_pos = do {
     let dx_target = pos_x target_pos - pos_x my_pos;
     let dy_target = pos_y target_pos - pos_y my_pos;
     dist_to_target \<leftarrow> math_sqrt (dx_target\<^sup>2 + dy_target\<^sup>2);
     (dx_target, dy_target) \<leftarrow>
       (if dist_to_target > ARRIVAL_RADIUS then do {
          a \<leftarrow> py_div dx_target dist_to_target;
          b \<leftarrow> py_div dy_target dist_to_target;
          Some (a * ARRIVAL_RADIUS, b * ARRIVAL_RADIUS)
        } else Some (dx_target, dy_target));
     let APPROACH_RADIUS = ARRIVAL_RADIUS * 1.5;
     attraction_mult \<leftarrow>
       (if dist_to_target < APPROACH_RADIUS then do {
          r \<leftarrow> py_div dist_to_target APPROACH_RADIUS;
          Some (ATTRACTION_STRENGTH * max 0.1 r)
        } else Some ATTRACTION_STRENGTH);
     Some (dist_to_target, dx_target * attraction_mult, dy_target * attraction_mult)
   }"

text \<open>One pass of the loop over the peers (lines 76 to 113), on the running force.\<close>

definition repulsion_step ::
  "real DronePosition \<Rightarrow> real \<Rightarrow> real \<times> real \<Rightarrow> real DroneInfo \<Rightarrow> (real \<times> real) option" where
  "repulsion_step my_pos dt f drone_info = do {
     let other_pos = position drone_info;
     let dx = pos_x my_pos - pos_x other_pos;
     let dy = pos_y my_pos - pos_y other_pos;
     distance \<leftarrow> math_sqrt (dx\<^sup>2 + dy\<^sup>2);
     let future_dx = (pos_x my_pos + pos_vx my_pos * dt) - (pos_x other_pos + pos_vx other_pos * dt);
     let future_dy = (pos_y my_pos + pos_vy my_pos * dt) - (pos_y other_pos + pos_vy other_pos * dt);
     future_distance \<leftarrow> math_sqrt (future_dx\<^sup>2 + future_dy\<^sup>2);
     distance_factor \<leftarrow>
       (if future_distance < distance
        then py_div distance (max future_distance (COLLISION_RADIUS * 0.1))
        else Some 1.0);
     r \<leftarrow> calculate_repulsion_force distance;
     let force = r * distance_factor;
     if force = 0 then Some f
     else do {
       (dx, dy) \<leftarrow>
         (if distance > 0 then do {
            a \<leftarrow> py_div dx distance;
            b \<leftarrow> py_div dy distance;
            Some (a, b)
          } else Some (dx, dy));
       let fx = fst f + dx * force;
       let fy = snd f + dy * force;
       if future_distance < distance then
         let rel_vx = pos_vx my_pos - pos_vx other_pos;
             rel_vy = pos_vy my_pos - pos_vy other_pos
         in Some (fx - rel_vx * force * 0.1, fy - rel_vy * force * 0.1)
       else Some (fx, fy)
     }
   }"

fun repulsion ::
  "real DronePosition \<Rightarrow> real \<Rightarrow> real \<times> real \<Rightarrow> (int \<times> real DroneInfo) list
    \<Rightarrow> (real \<times> real) option" where
  "repulsion my_pos dt f [] = Some f"
| "repulsion my_pos dt f ((i, drone_info) # rest) = do {
     f' \<leftarrow> repulsion_step my_pos dt f drone_info;
     repulsion my_pos dt f' rest
   }"

text \<open>
  Lines 128 to 167, from the total force to the returned velocity: damping, the
  acceleration clamp, the speed clamp and the arrival snap.
\<close>

definition limit_velocity ::
  "real \<times> real \<times> real \<Rightarrow> real \<Rightarrow> real \<Rightarrow> real \<Rightarrow> real \<Rightarrow> (real \<times> real \<times> real) option" where
  "limit_velocity previous_velocity dist_to_target fx fy dt = do {
     total_force \<leftarrow> math_sqrt (fx\<^sup>2 + fy\<^sup>2);
     let damping = min (BASE_DAMPING + total_force * FORCE_DAMPING_FACTOR) MAX_DAMPING;
     let (prev_vx, prev_vy, prev_vz) = previous_velocity;
     let desired_vx = prev_vx * damping + fx * (1 - damping);
     let desired_vy = prev_vy * damping + fy * (1 - damping);
     ax \<leftarrow> py_div (desired_vx - prev_vx) dt;
     ay \<leftarrow> py_div (desired_vy - prev_vy) dt;
     acceleration \<leftarrow> math_sqrt (ax * ax + ay * ay);
     (ax, ay) \<leftarrow>
       (if acceleration > MAX_ACCELERATION then do {
          k \<leftarrow> py_div MAX_ACCELERATION acceleration;
          Some (ax * k, ay * k)
        } else Some (ax, ay));
     let vx = prev_vx + ax * dt;
     let vy = prev_vy + ay * dt;
     let vz = 0;
     velocity \<leftarrow> math_sqrt (vx * vx + vy * vy);
     (vx, vy) \<leftarrow>
       (if velocity > MAX_SPEED then do {
          k \<leftarrow> py_div MAX_SPEED velocity;
          Some (vx * k, vy * k)
        } else Some (vx, vy));
     if velocity < TARGET_SPEED_THRESHOLD \<and> dist_to_target < TARGET_THRESHOLD
     then Some (0, 0, 0)
     else Some (vx, vy, vz)
   }"

text \<open>
  \<open>get_avoidance_vector\<close>, with the stored \<open>_previous_velocity\<close> as first argument.  The
  returned velocity is also the new \<open>_previous_velocity\<close>.
\<close>

definition get_avoidance_vector ::
  "real \<times> real \<times> real \<Rightarrow> real DronePosition \<Rightarrow> real DronePosition
    \<Rightarrow> (int \<times> real DroneInfo) list \<Rightarrow> real \<Rightarrow> (real \<times> real \<times> real) option" where
  "get_avoidance_vector previous_velocity my_pos target_pos other_drones_snapshot dt = do {
     (dist_to_target, attr_fx, attr_fy) \<leftarrow> attraction my_pos target_pos;
     (fx, fy) \<leftarrow> repulsion my_pos dt (0, 0) other_drones_snapshot;
     limit_velocity previous_velocity dist_to_target (fx + attr_fx) (fy + attr_fy) dt
   }"

section \<open>Facts about the wire formats\<close>

lemma le_int_le_bytes: "0 \<le> n \<Longrightarrow> n < 256 ^ k \<Longrightarrow> le_int (le_bytes k n) = n"
proof (induction k arbitrary: n)
  case 0
  then show ?case by simp
next
  case (Suc k)
  have a: "0 \<le> n div 256"
    using Suc.prems by simp
  have b: "n div 256 < 256 ^ k"
    using Suc.prems by (simp add: div_less_iff_less_mult)
  have "uint (word_of_int (n mod 256) :: byte) = n mod 256"
    by (simp add: uint_word_of_int)
  then show ?case
    using Suc.IH [OF a b] by simp
qed

lemma length_le_bytes [simp]: "length (le_bytes k n) = k"
  by (induction k arbitrary: n) auto

lemma length_pack_f32 [simp]: "length (pack_f32 w) = 4"
  by (simp add: pack_f32_def)

lemma unpack_pack_f32 [simp]: "unpack_f32 (pack_f32 w) = w"
proof -
  have "uint w < 256 ^ 4"
    using uint_bounded [of w] by simp
  then show ?thesis
    by (simp add: unpack_f32_def pack_f32_def le_int_le_bytes)
qed

section \<open>The CRC register never forgets a difference\<close>

lemma drop_bit_top: "\<not> bit (drop_bit 1 w) 15" for w :: "16 word"
proof
  assume "bit (drop_bit 1 w) 15"
  then have "bit w 16" by (simp add: bit_drop_bit_eq)
  then have "16 < LENGTH(16)" by (rule bit_imp_le_length)
  then show False by simp
qed

lemma poly_top: "bit (0xA001 :: 16 word) 15"
  by code_simp

lemma word_split_lsb: "w = push_bit 1 (drop_bit 1 w) + (w AND 1)" for w :: "16 word"
  using bits_ident [of 1 w] by (simp add: take_bit_eq_mask)

lemma xor_cancel_right: "a XOR k = b XOR k \<Longrightarrow> a = b" for a :: "'a::len word"
proof -
  assume "a XOR k = b XOR k"
  then have "(a XOR k) XOR k = (b XOR k) XOR k" by simp
  then show "a = b" by (simp add: xor.assoc)
qed

lemma xor_cancel_left: "k XOR a = k XOR b \<Longrightarrow> a = b" for a :: "'a::len word"
  using xor_cancel_right [of a k b] by (simp add: xor.commute)

lemma crc_bit_top: "bit (crc_bit w) 15 \<longleftrightarrow> w AND 1 \<noteq> 0"
  using drop_bit_top [of w] poly_top by (simp add: crc_bit_def bit_xor_iff)

lemma crc_bit_inj: 
  assumes eq: "crc_bit a = crc_bit b" shows "a = b"
proof -
  have lsb: "(a AND 1 \<noteq> 0) = (b AND 1 \<noteq> 0)"
    using eq crc_bit_top [of a] crc_bit_top [of b] by simp
  have d: "drop_bit 1 a = drop_bit 1 b"
  proof (cases "a AND 1 \<noteq> 0")
    case True
    then have "drop_bit 1 a XOR 0xA001 = drop_bit 1 b XOR 0xA001"
      using eq lsb by (simp add: crc_bit_def)
    then show ?thesis by (rule xor_cancel_right)
  next
    case False
    then show ?thesis using eq lsb by (simp add: crc_bit_def)
  qed
  have "a AND 1 = b AND 1" using lsb by (auto simp: and_one_eq)
  with d word_split_lsb [of a] word_split_lsb [of b] show "a = b" by simp
qed

lemma crc_bits_inj: "crc_bits n a = crc_bits n b \<Longrightarrow> a = b"
  by (induction n arbitrary: a b) (auto dest: crc_bit_inj)

lemma crc_byte_inj_state: "crc_byte a x = crc_byte b x \<Longrightarrow> a = b"
  unfolding crc_byte_def by (drule crc_bits_inj) (rule xor_cancel_right)

lemma ucast_byte_inj: "(ucast (x :: byte) :: 16 word) = ucast y \<Longrightarrow> x = y"
proof -
  assume "(ucast x :: 16 word) = ucast y"
  then have "(ucast (ucast x :: 16 word) :: byte) = ucast (ucast y :: 16 word)" by simp
  then show "x = y" by (simp add: ucast_up_ucast_id is_up)
qed

lemma crc_byte_inj_byte: "crc_byte c x = crc_byte c y \<Longrightarrow> x = y"
  unfolding crc_byte_def by (drule crc_bits_inj, drule xor_cancel_left) (rule ucast_byte_inj)

lemma foldl_crc_inj_state: "foldl crc_byte a xs = foldl crc_byte b xs \<Longrightarrow> a = b"
  by (induction xs arbitrary: a b) (auto dest: crc_byte_inj_state)

lemma foldl_crc_one_byte:
  assumes "i < length xs" "v \<noteq> xs ! i"
  shows "foldl crc_byte c (xs[i := v]) \<noteq> foldl crc_byte c xs"
proof -
  have xs: "xs = take i xs @ xs ! i # drop (Suc i) xs"
    using assms(1) by (simp add: id_take_nth_drop)
  have up: "xs[i := v] = take i xs @ v # drop (Suc i) xs"
    using assms(1) by (simp add: upd_conv_take_nth_drop)
  let ?s = "foldl crc_byte c (take i xs)"
  have "crc_byte ?s v \<noteq> crc_byte ?s (xs ! i)"
    using assms(2) crc_byte_inj_byte by blast
  then have "foldl crc_byte (crc_byte ?s v) (drop (Suc i) xs)
      \<noteq> foldl crc_byte (crc_byte ?s (xs ! i)) (drop (Suc i) xs)"
    using foldl_crc_inj_state by blast
  then have "foldl crc_byte c (take i xs @ v # drop (Suc i) xs) 
     \<noteq> foldl crc_byte c (take i xs @ xs ! i # drop (Suc i) xs)" by simp
  then show ?thesis using xs up by simp
qed

section \<open>Packing and unpacking\<close>

declare le_bytes.simps [simp del]


lemma pack_uint_1 [simp]: "u8 n \<Longrightarrow> pack_uint (Suc 0) n = Some (le_bytes (Suc 0) n)"
  by (simp add: pack_uint_def u8_def)
lemma pack_uint_2 [simp]: "u16 n \<Longrightarrow> pack_uint 2 n = Some (le_bytes 2 n)"
  by (simp add: pack_uint_def u16_def)
lemma pack_uint_4 [simp]: "u32 n \<Longrightarrow> pack_uint 4 n = Some (le_bytes 4 n)"
  by (simp add: pack_uint_def u32_def)
lemma le_int_1 [simp]: "u8 n \<Longrightarrow> le_int (le_bytes (Suc 0) n) = n"
  by (rule le_int_le_bytes) (simp_all add: u8_def)
lemma le_int_2 [simp]: "u16 n \<Longrightarrow> le_int (le_bytes 2 n) = n"
  by (rule le_int_le_bytes) (simp_all add: u16_def)
lemma le_int_4 [simp]: "u32 n \<Longrightarrow> le_int (le_bytes 4 n) = n"
  by (rule le_int_le_bytes) (simp_all add: u32_def)

lemma but_last2_append [simp]: "length t = 2 \<Longrightarrow> but_last2 (xs @ t) = xs"
  by (simp add: but_last2_def)
lemma but_last2_append2 [simp]: "but_last2 (xs @ ys @ [a, b]) = xs @ ys"
  by (simp add: but_last2_def)
lemma last2_append [simp]: "length t = 2 \<Longrightarrow> last2 (xs @ t) = t"
  by (simp add: last2_def)

lemma u16_calculate_crc16 [simp]: "u16 (calculate_crc16 data)"
proof -
  have "uint w < 65536" for w :: "16 word"
    using uint_bounded [of w] by simp
  then show ?thesis by (simp add: calculate_crc16_def u16_def)
qed

lemma calculate_crc16_append:
  "length t = 2 \<Longrightarrow> calculate_crc16 (xs @ t) = calculate_crc16 (xs @ [0, 0])"
  by (simp add: calculate_crc16_def)

lemma pack_header_Some:
  assumes "header_ok h t sz" "u8 t" "u8 sz"
  shows "pack_header h = Some (le_bytes 2 (preamble h) @ le_bytes 1 sz @ le_bytes 1 t @ le_bytes 1 (network_id h))"
proof -
  have "u16 (preamble h)" using assms(1) by (simp add: header_ok_def PACKET_PREAMBLE_def u16_def)
  then show ?thesis using assms by (simp add: pack_header_def header_ok_def)
qed

lemma length_pack_header: "pack_header h = Some hdr \<Longrightarrow> length hdr = 5"
  by (auto simp: pack_header_def pack_uint_def split: Option.bind_splits if_splits)

lemma unpack_after_crc:
  assumes "pack_header h = Some hdr"
  shows "unpack_packet h (data @ le_bytes 2 (calculate_crc16 (hdr @ data @ [0, 0])))
         = unpack_typed h data (calculate_crc16 (hdr @ data @ [0, 0]))"
  using assms by (simp add: unpack_packet_def Let_def)



lemma pack_126s_id [simp]: "length d = 126 \<Longrightarrow> pack_126s d = d"
  by (simp add: pack_126s_def)

lemma unpack_typed_pack_data:
  assumes "wire_ok p" "pack_data p = Some data"
  shows "unpack_typed (header p) data c = Some (Typed (with_crc p c))"
  using assms
  by (cases p) (auto simp: unpack_typed_def header_ok_def packet_consts py_slice_def)

lemma pack_data_Some:
  assumes "wire_ok p"
  shows "\<exists>data. pack_data p = Some data \<and> int (length data) + 2 = payload_size (header p)"
  using assms by (cases p) (auto simp: header_ok_def packet_consts)

lemma wire_ok_pack_header:
  assumes "wire_ok p"
  shows "\<exists>hdr. pack_header (header p) = Some hdr \<and> length hdr = 5"
proof -
  obtain t sz where "header_ok (header p) t sz" "u8 t" "u8 sz"
    using assms by (cases p) (auto simp: packet_consts u8_def)
  then show ?thesis
    using pack_header_Some [of "header p" t sz] by auto
qed

lemma pack_packet_Some:
  assumes "pack_header (header p) = Some hdr" "pack_data p = Some data"
  shows "pack_packet p = Some (hdr @ data @ le_bytes 2 (calculate_crc16 (hdr @ data @ [0, 0])))"
  using assms by (simp add: pack_packet_def Let_def)

lemma pack_then_unpack:
  assumes "wire_ok p"
  shows "\<exists>bs. pack_packet p = Some bs
           \<and> int (length bs) = int HEADER_SIZE + payload_size (header p)
           \<and> unpack_packet (header p) (drop HEADER_SIZE bs)
               = Some (Typed (with_crc p (calculate_crc16 bs)))"
proof -
  obtain hdr where hdr: "pack_header (header p) = Some hdr" "length hdr = 5"
    using wire_ok_pack_header [OF assms] by blast
  obtain data where data: "pack_data p = Some data"
      "int (length data) + 2 = payload_size (header p)"
    using pack_data_Some [OF assms] by blast
  let ?c = "calculate_crc16 (hdr @ data @ [0, 0])"
  let ?bs = "hdr @ data @ le_bytes 2 ?c"
  have 1: "pack_packet p = Some ?bs"
    using hdr(1) data(1) by (rule pack_packet_Some)
  have 2: "int (length ?bs) = int HEADER_SIZE + payload_size (header p)"
    using hdr(2) data(2) by (simp add: HEADER_SIZE_def)
  have 3: "calculate_crc16 ?bs = ?c"
    using calculate_crc16_append [of "le_bytes 2 ?c" "hdr @ data"] by simp
  have "unpack_packet (header p) (drop HEADER_SIZE ?bs) = unpack_typed (header p) data ?c"
    using unpack_after_crc [OF hdr(1), of data] hdr(2) by (simp add: HEADER_SIZE_def)
  also have "\<dots> = Some (Typed (with_crc p ?c))"
    using assms data(1) by (rule unpack_typed_pack_data)
  finally show ?thesis
    using 1 2 3 by simp
qed

lemma and_ffff [simp]: "(w :: 16 word) AND 0xFFFF = w"
proof -
  have e: "(0xFFFF :: 16 word) = - 1" by simp
  show ?thesis unfolding e by (rule and.right_neutral)
qed

lemma calculate_crc16_zeros: "calculate_crc16 (xs @ [a, b]) = uint (foldl crc_byte 0xFFFF xs)"
  by (simp add: calculate_crc16_def)

lemma le_int_inj: "length xs = length ys \<Longrightarrow> le_int xs = le_int ys \<Longrightarrow> xs = ys"
proof (induction xs ys rule: list_induct2)
  case Nil
  then show ?case by simp
next
  case (Cons x xs y ys)
  have bx: "0 \<le> uint x" "uint x < 256" using uint_bounded [of x] by simp_all
  have by': "0 \<le> uint y" "uint y < 256" using uint_bounded [of y] by simp_all
  from Cons.prems have eq: "uint x + 256 * le_int xs = uint y + 256 * le_int ys" by simp
  then have "(uint x + 256 * le_int xs) mod 256 = (uint y + 256 * le_int ys) mod 256" by simp
  then have xy: "uint x = uint y" using bx by' by simp
  then have "le_int xs = le_int ys" using eq by simp
  then show ?case using xy Cons.IH by (simp add: word_uint_eq_iff)
qed

lemma pack_packet_shape:
  assumes "pack_packet p = Some bs"
  obtains hdr data where "pack_header (header p) = Some hdr" "length hdr = 5"
    "bs = hdr @ data @ le_bytes 2 (calculate_crc16 (hdr @ data @ [0, 0]))"
proof -
  obtain hdr data where h: "pack_header (header p) = Some hdr" and d: "pack_data p = Some data"
    using assms by (auto simp: pack_packet_def split: Option.bind_splits)
  have "bs = hdr @ data @ le_bytes 2 (calculate_crc16 (hdr @ data @ [0, 0]))"
    using assms pack_packet_Some [OF h d] by simp
  then show ?thesis using that h length_pack_header [OF h] by blast
qed

section \<open>Facts about the control law\<close>

lemma py_div_Some [simp]: "b \<noteq> 0 \<Longrightarrow> py_div a b = Some (a / b)"
  by (simp add: py_div_def)

lemma math_sqrt_Some [simp]: "0 \<le> a \<Longrightarrow> math_sqrt a = Some (sqrt a)"
  by (simp add: math_sqrt_def)

lemma exp_neg_pow_Some [simp]: "0 \<le> b \<Longrightarrow> exp_neg_pow b = Some (exp (- (b powr FORCE_EXPONENT)))"
  by (simp add: exp_neg_pow_def)

lemma calculate_repulsion_force_eq:
  "calculate_repulsion_force d =
     Some (if d \<ge> COLLISION_RADIUS * 10 \<or> d < COLLISION_RADIUS then 0
           else REPULSION_STRENGTH * exp (- ((d / COLLISION_RADIUS - 1) powr FORCE_EXPONENT)))"
  by (simp add: calculate_repulsion_force_def COLLISION_RADIUS_def)


lemma attraction_total:
  "\<exists>ax ay. attraction my_pos target_pos =
      Some (sqrt ((pos_x target_pos - pos_x my_pos)\<^sup>2 + (pos_y target_pos - pos_y my_pos)\<^sup>2), ax, ay)"
  by (auto simp: attraction_def Let_def ARRIVAL_RADIUS_def py_div_def)

lemma repulsion_step_total: "\<exists>f'. repulsion_step my_pos dt f info = Some f'"
proof -
  have "max a (COLLISION_RADIUS * 0.1) \<noteq> 0" for a
    by (simp add: COLLISION_RADIUS_def max_def)
  then show ?thesis
    by (simp add: repulsion_step_def Let_def calculate_repulsion_force_eq)
qed

lemma repulsion_total: "\<exists>f'. repulsion my_pos dt f others = Some f'"
proof (induction others arbitrary: f)
  case Nil
  then show ?case by simp
next
  case (Cons a others)
  obtain i info where a: "a = (i, info)" by (cases a)
  obtain f1 where "repulsion_step my_pos dt f info = Some f1"
    using repulsion_step_total by blast
  then show ?case using Cons.IH [of f1] a by simp
qed


lemma limit_velocity_eq:
  fixes dt pvx pvy pvz dtt fx fy :: real
  assumes dt: "dt \<noteq> 0"
  defines "damping \<equiv> min (BASE_DAMPING + sqrt (fx\<^sup>2 + fy\<^sup>2) * FORCE_DAMPING_FACTOR) MAX_DAMPING"
  defines "ax0 \<equiv> ((pvx * damping + fx * (1 - damping)) - pvx) / dt"
  defines "ay0 \<equiv> ((pvy * damping + fy * (1 - damping)) - pvy) / dt"
  defines "acc \<equiv> sqrt (ax0 * ax0 + ay0 * ay0)"
  defines "ka \<equiv> (if acc > MAX_ACCELERATION then MAX_ACCELERATION / acc else 1)"
  defines "vx \<equiv> pvx + (ax0 * ka) * dt"
  defines "vy \<equiv> pvy + (ay0 * ka) * dt"
  defines "vel \<equiv> sqrt (vx * vx + vy * vy)"
  defines "kv \<equiv> (if vel > MAX_SPEED then MAX_SPEED / vel else 1)"
  shows "limit_velocity (pvx, pvy, pvz) dtt fx fy dt =
           Some (if vel < TARGET_SPEED_THRESHOLD \<and> dtt < TARGET_THRESHOLD then (0, 0, 0)
                 else (vx * kv, vy * kv, 0))"
proof -
  have acc: "acc > MAX_ACCELERATION \<Longrightarrow> acc \<noteq> 0"
    by (simp add: MAX_ACCELERATION_def)
  have vel: "vel > MAX_SPEED \<Longrightarrow> vel \<noteq> 0"
    by (simp add: MAX_SPEED_def)
  have 1: "(if acc > MAX_ACCELERATION
            then py_div MAX_ACCELERATION acc \<bind> (\<lambda>k. Some (ax0 * k, ay0 * k))
            else Some (ax0, ay0)) = Some (ax0 * ka, ay0 * ka)"
    using acc by (simp add: ka_def)
  have 2: "(if vel > MAX_SPEED
            then py_div MAX_SPEED vel \<bind> (\<lambda>k. Some (vx * k, vy * k))
            else Some (vx, vy)) = Some (vx * kv, vy * kv)"
    using vel by (simp add: kv_def)
  have s1: "math_sqrt (fx\<^sup>2 + fy\<^sup>2) = Some (sqrt (fx\<^sup>2 + fy\<^sup>2))"
    by simp
  have d1: "py_div a dt = Some (a / dt)" for a
    using dt by simp
  have s2: "math_sqrt (ax0 * ax0 + ay0 * ay0) = Some acc"
    by (simp add: acc_def)
  have s3: "math_sqrt (vx * vx + vy * vy) = Some vel"
    by (simp add: vel_def)
  show ?thesis
    unfolding limit_velocity_def
    by (simp only: Let_def split_conv s1 Option.bind.bind_lunit d1
        damping_def [symmetric] ax0_def [symmetric] ay0_def [symmetric] s2 1
        vx_def [symmetric] vy_def [symmetric] s3 2) simp
qed





section \<open>Facts about the presence table\<close>

lemma map_of_sweep:
  fixes f :: "('k \<times> 'v) list \<Rightarrow> 'k \<Rightarrow> ('k \<times> 'v) list"
  defines "f \<equiv> (\<lambda>tbl i. if map_of tbl i \<noteq> None then AList.delete i tbl else tbl)"
  shows "map_of (foldl f tbl ks) k = (if k \<in> set ks then None else map_of tbl k)"
proof (induction ks arbitrary: tbl)
  case Nil
  then show ?case by simp
next
  case (Cons a ks)
  have m: "map_of (f tbl a) j = (if j = a then None else map_of tbl j)" for j
    by (auto simp: f_def delete_conv')
  show ?case
    using Cons.IH [of "f tbl a"] by (simp add: m)
qed

lemma expired_keys:
  assumes "distinct (map fst tbl)"
  shows "k \<in> set (map fst (filter (\<lambda>(i, info). P info) tbl))
         \<longleftrightarrow> (\<exists>info. map_of tbl k = Some info \<and> P info)"
  using assms by (auto simp: image_iff) 

lemma sweep_general:
  assumes "distinct (map fst (other_drones d))"
  shows "map_of (other_drones (cleanup_expired_drones now d)) i =
           (case map_of (other_drones d) i of
              None \<Rightarrow> None
            | Some info \<Rightarrow>
                if now - last_seen info > drone_expiry_timeout d then None else Some info)"
proof -
  have step: "other_drones (cleanup_expired_drones now d) =
      foldl (\<lambda>tbl i. if map_of tbl i \<noteq> None then AList.delete i tbl else tbl) (other_drones d)
        (map fst (filter (\<lambda>(i, info). now - last_seen info > drone_expiry_timeout d)
                    (other_drones d)))"
    by (simp add: cleanup_expired_drones_def Let_def)
  have "map_of (other_drones (cleanup_expired_drones now d)) i =
      (if i \<in> set (map fst (filter (\<lambda>(i, info). now - last_seen info > drone_expiry_timeout d)
                            (other_drones d)))
       then None else map_of (other_drones d) i)"
    unfolding step by (rule map_of_sweep)
  then show ?thesis
    using expired_keys [OF assms, of i "\<lambda>info. now - last_seen info > drone_expiry_timeout d"]
    by (auto split: option.splits)
qed

section \<open>Facts about the framer\<close>

lemma preamble_bytes_eq: "preamble_bytes = [0x55, 0xAA]"
  by code_simp

lemma preamble_le_bytes: "le_bytes 2 PACKET_PREAMBLE = [0x55, 0xAA]"
  by code_simp

lemma find_from_skip:
  assumes "find_from [0x55, 0xAA] G i = - 1" "take 2 X = [0x55, 0xAA]"
  shows "find_from [0x55, 0xAA] (G @ X) i = int (i + length G)"
  using assms
proof (induction G arbitrary: i)
  case Nil
  then obtain b bs where "X = b # bs" by (cases X) auto
  then show ?case using Nil by simp
next
  case (Cons g gs)
  have ne: "take 2 (g # gs) \<noteq> [0x55, 0xAA]" and rest: "find_from [0x55, 0xAA] gs (Suc i) = - 1"
    using Cons.prems(1) by (auto split: if_splits)
  obtain x1 x2 xs where X: "X = x1 # x2 # xs" "x1 = 0x55"
    using Cons.prems(2) by (cases X; cases "tl X") auto
  have "take 2 (g # gs @ X) \<noteq> [0x55, 0xAA]"
  proof (cases gs)
    case Nil
    then show ?thesis using X by simp
  next
    case (Cons g2 gs')
    then show ?thesis using ne by simp
  qed
  then show ?case
    using Cons.IH [OF rest Cons.prems(2)] by simp
qed

lemma find_bytes_skip:
  assumes "find_bytes G preamble_bytes = - 1" "take 2 X = preamble_bytes"
  shows "find_bytes (G @ X) preamble_bytes = int (length G)"
  using assms find_from_skip [of G 0 X] by (simp add: find_bytes_def preamble_bytes_eq)


lemma wire_ok_header:
  assumes "wire_ok p"
  shows "header_ok (header p) (packet_type (header p)) (payload_size (header p))
       \<and> u8 (packet_type (header p)) \<and> u8 (payload_size (header p))
       \<and> 2 \<le> payload_size (header p) \<and> payload_size (header p) \<le> MAX_PAYLOAD_SIZE"
  using assms by (cases p) (auto simp: header_ok_def packet_consts u8_def)

text \<open>What a packed packet looks like to the framer.\<close>

lemma packed_frame:
  assumes "wire_ok p" "pack_packet p = Some A"
  obtains body where
    "A = le_bytes 2 PACKET_PREAMBLE @ le_bytes 1 (payload_size (header p))
           @ le_bytes 1 (packet_type (header p)) @ le_bytes 1 (network_id (header p)) @ body"
    "int (length body) = payload_size (header p)"
    "u8 (payload_size (header p))" "u8 (packet_type (header p))" "u8 (network_id (header p))"
    "preamble (header p) = PACKET_PREAMBLE"
    "2 \<le> payload_size (header p)" "payload_size (header p) \<le> MAX_PAYLOAD_SIZE"
proof -
  obtain t sz where h: "header_ok (header p) t sz" "u8 t" "u8 sz" "2 \<le> sz" "sz \<le> MAX_PAYLOAD_SIZE"
    using wire_ok_header [OF assms(1)] by blast
  have ph: "pack_header (header p) = Some (le_bytes 2 (preamble (header p)) @ le_bytes 1 sz
       @ le_bytes 1 t @ le_bytes 1 (network_id (header p)))"
    using h(1-3) by (rule pack_header_Some)
  obtain data where d: "pack_data p = Some data" "int (length data) + 2 = payload_size (header p)"
    using pack_data_Some [OF assms(1)] by blast
  have "pack_packet p = Some ((le_bytes 2 (preamble (header p)) @ le_bytes 1 sz
       @ le_bytes 1 t @ le_bytes 1 (network_id (header p))) @ data @ le_bytes 2 (calculate_crc16 ((le_bytes 2 (preamble (header p)) @ le_bytes 1 sz
       @ le_bytes 1 t @ le_bytes 1 (network_id (header p))) @ data @ [0, 0])))"
    using ph d(1) by (rule pack_packet_Some)
  then have A: "A = le_bytes 2 (preamble (header p)) @ le_bytes 1 sz
       @ le_bytes 1 t @ le_bytes 1 (network_id (header p)) @ (data @ le_bytes 2 (calculate_crc16 ((le_bytes 2 (preamble (header p)) @ le_bytes 1 sz
       @ le_bytes 1 t @ le_bytes 1 (network_id (header p))) @ data @ [0, 0])))"
    using assms(2) by simp
  have hp: "preamble (header p) = PACKET_PREAMBLE" "payload_size (header p) = sz"
      "packet_type (header p) = t" "u8 (network_id (header p))"
    using h(1) by (simp_all add: header_ok_def)
  show ?thesis
    by (rule that [of "data @ le_bytes 2 (calculate_crc16 ((le_bytes 2 (preamble (header p)) @ le_bytes 1 sz
       @ le_bytes 1 t @ le_bytes 1 (network_id (header p))) @ data @ [0, 0]))"])
      (use A hp h d in \<open>simp_all\<close>)
qed

lemma extract_packet_after_garbage:
  assumes "wire_ok p" "pack_packet p = Some A" "find_bytes G preamble_bytes = - 1"
  shows "extract_packet (G @ A @ R) = (Some A, R)"
proof -
  obtain body where A: "A = le_bytes 2 PACKET_PREAMBLE @ le_bytes 1 (payload_size (header p))
           @ le_bytes 1 (packet_type (header p)) @ le_bytes 1 (network_id (header p)) @ body"
    and lb: "int (length body) = payload_size (header p)"
    and r: "u8 (payload_size (header p))" "2 \<le> payload_size (header p)"
       "payload_size (header p) \<le> MAX_PAYLOAD_SIZE"
    using packed_frame [OF assms(1,2)] by metis
  have lA: "length A = HEADER_SIZE + nat (payload_size (header p))"
    using lb by (simp add: A HEADER_SIZE_def)
  have t2: "take 2 (A @ R) = preamble_bytes"
    by (simp add: A preamble_bytes_def)
  have f: "find_bytes (G @ A @ R) preamble_bytes = int (length G)"
    using assms(3) t2 by (rule find_bytes_skip)
  have buf1: "(if int (length G) > 0 then drop (nat (int (length G))) (G @ A @ R) else G @ A @ R) = A @ R"
    by simp
  have hd5: "take HEADER_SIZE (A @ R) = le_bytes 2 PACKET_PREAMBLE @ le_bytes 1 (payload_size (header p))
           @ le_bytes 1 (packet_type (header p)) @ le_bytes 1 (network_id (header p))"
    by (simp add: A HEADER_SIZE_def)
  have pre: "le_int (py_slice 0 2 (take HEADER_SIZE (A @ R))) = PACKET_PREAMBLE"
    unfolding hd5 by (simp add: py_slice_def le_int_le_bytes PACKET_PREAMBLE_def)
  have sz: "le_int (py_slice 2 3 (take HEADER_SIZE (A @ R))) = payload_size (header p)"
    unfolding hd5 using r(1) by (simp add: py_slice_def)
  have len: "\<not> length (G @ A @ R) < HEADER_SIZE" "\<not> length (A @ R) < HEADER_SIZE"
    using lA by simp_all
  show ?thesis
    unfolding extract_packet_def
    using len r(2,3) lA
    by (simp only: f buf1 Let_def pre sz if_False) simp
qed


lemma handle_packet_valid:
  assumes "wire_ok p" "pack_packet p = Some A"
  shows "handle_packet A l =
           l\<lparr>packets_received := packets_received l + 1,
             bytes_received := bytes_received l + int (length A),
             delivered := delivered l @ [Typed (with_crc p (calculate_crc16 A))]\<rparr>"
proof -
  obtain body where A: "A = le_bytes 2 PACKET_PREAMBLE @ le_bytes 1 (payload_size (header p))
           @ le_bytes 1 (packet_type (header p)) @ le_bytes 1 (network_id (header p)) @ body"
    and lb: "int (length body) = payload_size (header p)"
    and r: "u8 (payload_size (header p))" "u8 (packet_type (header p))"
       "u8 (network_id (header p))" "preamble (header p) = PACKET_PREAMBLE"
    using packed_frame [OF assms] by metis
  have hd5: "take HEADER_SIZE A = le_bytes 2 PACKET_PREAMBLE @ le_bytes 1 (payload_size (header p))
           @ le_bytes 1 (packet_type (header p)) @ le_bytes 1 (network_id (header p))"
    by (simp add: A HEADER_SIZE_def)
  have f: "le_int (py_slice 0 2 (take HEADER_SIZE A)) = preamble (header p)"
      "le_int (py_slice 2 3 (take HEADER_SIZE A)) = payload_size (header p)"
      "le_int (py_slice 3 4 (take HEADER_SIZE A)) = packet_type (header p)"
      "le_int (py_slice 4 5 (take HEADER_SIZE A)) = network_id (header p)"
    unfolding hd5 using r by (simp_all add: py_slice_def le_int_le_bytes PACKET_PREAMBLE_def)
  have hobj: "\<lparr>preamble = preamble (header p), payload_size = payload_size (header p),
               packet_type = packet_type (header p), network_id = network_id (header p)\<rparr> = header p"
    by simp
  have u: "unpack_packet (header p) (drop HEADER_SIZE A)
        = Some (Typed (with_crc p (calculate_crc16 A)))"
    using pack_then_unpack [OF assms(1)] assms(2) by auto
  have lA: "int (length A) = int HEADER_SIZE + payload_size (header p)"
    using lb by (simp add: A HEADER_SIZE_def)
  show ?thesis
    unfolding handle_packet_def
    by (simp only: Let_def f hobj u) (simp add: lA)
qed

lemma extract_packet_empty: "extract_packet [] = (None, [])"
  by (simp add: extract_packet_def HEADER_SIZE_def)

lemma process_loop_step:
  "extract_packet (rx_buffer l) = (Some d, buf)
     \<Longrightarrow> process_loop l = process_loop (handle_packet d (l\<lparr>rx_buffer := buf\<rparr>))"
  by (subst process_loop.simps) simp

lemma process_loop_stop:
  "extract_packet (rx_buffer l) = (None, buf) \<Longrightarrow> process_loop l = l\<lparr>rx_buffer := buf\<rparr>"
  by (subst process_loop.simps) simp

section \<open>The claims\<close>

subsection \<open>C1: round trip of the codec\<close>

text \<open>
  C1 as stated: for every packet whose fields are in their wire ranges and whose header
  is right, unpacking what \<open>pack_packet\<close> wrote gives the packet back, its \<open>crc\<close> field
  included.  This fails: \<open>pack_packet\<close> never reads the \<open>crc\<close> field (the senders in
  link.py set it to 0), while \<open>unpack_packet\<close> stores the CRC it received.  A command
  packet with \<open>crc = 0\<close> comes back with \<open>crc = 0x893C\<close>.
\<close>

theorem roundtrip_crc_counterexample:
  "wire_ok (CommandPacket \<lparr>preamble = 0xAA55, payload_size = 6, packet_type = 2, network_id = 18\<rparr> 1 2 3 0)
   \<and> pack_packet (CommandPacket \<lparr>preamble = 0xAA55, payload_size = 6, packet_type = 2, network_id = 18\<rparr> 1 2 3 0)
       = Some [85, 170, 6, 2, 18, 1, 2, 3, 0, 60, 137]
   \<and> unpack_packet \<lparr>preamble = 0xAA55, payload_size = 6, packet_type = 2, network_id = 18\<rparr>
         (drop HEADER_SIZE [85, 170, 6, 2, 18, 1, 2, 3, 0, 60, 137])
       = Some (Typed (CommandPacket \<lparr>preamble = 0xAA55, payload_size = 6, packet_type = 2, network_id = 18\<rparr> 1 2 3 0x893C))
   \<and> unpack_packet \<lparr>preamble = 0xAA55, payload_size = 6, packet_type = 2, network_id = 18\<rparr>
         (drop HEADER_SIZE [85, 170, 6, 2, 18, 1, 2, 3, 0, 60, 137])
       \<noteq> Some (Typed (CommandPacket \<lparr>preamble = 0xAA55, payload_size = 6, packet_type = 2, network_id = 18\<rparr> 1 2 3 0))"
  by code_simp

text \<open>
  C1 as amended: for every packet that satisfies \<open>wire_ok\<close> (integer fields in range,
  float fields given as single precision bit patterns, header with the right preamble,
  size and type, \<open>custom_data\<close> of exactly 126 bytes), \<open>pack_packet\<close> succeeds, writes
  \<open>HEADER_SIZE + payload_size\<close> bytes, and \<open>unpack_packet\<close> on the header and the bytes
  after it returns the packet with its \<open>crc\<close> field replaced by the CRC16 of the
  encoding; all other fields come back unchanged.
\<close>

theorem pack_unpack_roundtrip:
  assumes "wire_ok p"
  shows "\<exists>bs. pack_packet p = Some bs
           \<and> int (length bs) = int HEADER_SIZE + payload_size (header p)
           \<and> unpack_packet (header p) (drop HEADER_SIZE bs)
               = Some (Typed (with_crc p (calculate_crc16 bs)))"
  using assms by (rule pack_then_unpack)

theorem pack_unpack_roundtrip_witness:
  "wire_ok (PingPacket \<lparr>preamble = 0xAA55, payload_size = 6, packet_type = 7, network_id = 18\<rparr> 1000 0)
   \<and> (\<exists>bs. pack_packet (PingPacket \<lparr>preamble = 0xAA55, payload_size = 6, packet_type = 7, network_id = 18\<rparr> 1000 0) = Some bs
           \<and> int (length bs) = int HEADER_SIZE + 6
           \<and> unpack_packet \<lparr>preamble = 0xAA55, payload_size = 6, packet_type = 7, network_id = 18\<rparr> (drop HEADER_SIZE bs)
               = Some (Typed (PingPacket \<lparr>preamble = 0xAA55, payload_size = 6, packet_type = 7, network_id = 18\<rparr> 1000 (calculate_crc16 bs))))"
proof -
  let ?p = "PingPacket \<lparr>preamble = 0xAA55, payload_size = 6, packet_type = 7, network_id = 18\<rparr> 1000 0"
  have h: "wire_ok ?p"
    by code_simp
  show ?thesis
    using h pack_unpack_roundtrip [OF h] by simp
qed

subsection \<open>C2: a changed byte is rejected\<close>

text \<open>
  C2: for every packet that \<open>pack_packet\<close> produced and every change of exactly one byte
  after the 5-byte header (payload or one of the two CRC bytes) to a different value,
  the CRC16 that \<open>unpack_packet\<close> recomputes differs from the stored one and
  \<open>unpack_packet\<close> returns its rejection value \<open>None\<close>.  No single-byte change passes.
\<close>

theorem single_byte_corruption_rejected:
  assumes "pack_packet p = Some bs" "HEADER_SIZE \<le> i" "i < length bs" "v \<noteq> bs ! i"
  shows "\<exists>hdr. pack_header (header p) = Some hdr
          \<and> calculate_crc16 (hdr @ but_last2 (drop HEADER_SIZE (bs[i := v])) @ [0, 0])
              \<noteq> le_int (last2 (drop HEADER_SIZE (bs[i := v])))
          \<and> unpack_packet (header p) (drop HEADER_SIZE (bs[i := v])) = None"
proof -
  obtain hdr data where h: "pack_header (header p) = Some hdr" and lh: "length hdr = 5"
    and bs: "bs = hdr @ data @ le_bytes 2 (calculate_crc16 (hdr @ data @ [0, 0]))"
    using assms(1) by (rule pack_packet_shape)
  let ?c = "calculate_crc16 (hdr @ data @ [0, 0])"
  let ?t = "le_bytes 2 ?c"
  let ?pl = "drop HEADER_SIZE (bs[i := v])"
  define j where "j = i - 5"
  have i: "i = 5 + j" using assms(2) by (simp add: j_def HEADER_SIZE_def)
  have jl: "j < length data + 2" using assms(3) bs lh i by simp
  have pl: "?pl = (data @ ?t)[j := v]"
    using bs lh i by (simp add: HEADER_SIZE_def drop_update_swap list_update_append)
  have vj: "v \<noteq> (data @ ?t) ! j"
    using assms(4) bs lh i by (simp add: nth_append)
  have ct: "le_int ?t = ?c" by simp
  have mismatch: "calculate_crc16 (hdr @ but_last2 ?pl @ [0, 0]) \<noteq> le_int (last2 ?pl)"
  proof (cases "j < length data")
    case True
    then have pl': "?pl = data[j := v] @ ?t" using pl by (simp add: list_update_append)
    have vd: "v \<noteq> (hdr @ data) ! i" using vj True lh i by (simp add: nth_append)
    have il: "i < length (hdr @ data)" using True lh i by simp
    have "foldl crc_byte 0xFFFF ((hdr @ data)[i := v]) \<noteq> foldl crc_byte 0xFFFF (hdr @ data)"
      using il vd by (rule foldl_crc_one_byte)
    moreover have "(hdr @ data)[i := v] = hdr @ data[j := v]"
      using lh i by (simp add: list_update_append)
    ultimately have "calculate_crc16 (hdr @ data[j := v] @ [0, 0]) \<noteq> ?c"
      using calculate_crc16_zeros [of "hdr @ data[j := v]" 0 0]
        calculate_crc16_zeros [of "hdr @ data" 0 0]
      by (simp add: word_uint_eq_iff)
    then show ?thesis using pl' ct by simp
  next
    case False
    define k where "k = j - length data"
    have k: "j = length data + k" "k < 2" using False jl by (simp_all add: k_def)
    have pl': "?pl = data @ ?t[k := v]" using pl k by (simp add: list_update_append)
    have "?t[k := v] \<noteq> ?t"
    proof
      assume "?t[k := v] = ?t"
      then have "?t[k := v] ! k = ?t ! k" by simp
      then show False using vj k by (simp add: nth_append)
    qed
    then have "le_int (?t[k := v]) \<noteq> le_int ?t"
      using le_int_inj [of "?t[k := v]" ?t] by auto
    then show ?thesis using pl' ct by simp
  qed
  have "2 \<le> length ?pl" using pl by simp
  then have "unpack_packet (header p) ?pl = None"
    using h mismatch by (simp add: unpack_packet_def Let_def)
  then show ?thesis using h mismatch by simp
qed

theorem single_byte_corruption_rejected_witness:
  "pack_packet (CommandPacket \<lparr>preamble = 0xAA55, payload_size = 6, packet_type = 2, network_id = 18\<rparr> 1 2 3 0) = Some [85, 170, 6, 2, 18, 1, 2, 3, 0, 60, 137]
   \<and> HEADER_SIZE \<le> 6 \<and> 6 < length [85, 170, 6, 2, 18, 1, 2, 3, 0, 60, 137]
   \<and> (0xFF :: byte) \<noteq> [85, 170, 6, 2, 18, 1, 2, 3, 0, 60, 137] ! 6
   \<and> unpack_packet (header (CommandPacket \<lparr>preamble = 0xAA55, payload_size = 6, packet_type = 2, network_id = 18\<rparr> 1 2 3 0)) (drop HEADER_SIZE ([85, 170, 6, 2, 18, 1, 2, 3, 0, 60, 137][6 := 0xFF])) = None"
proof -
  have h1: "pack_packet (CommandPacket \<lparr>preamble = 0xAA55, payload_size = 6, packet_type = 2, network_id = 18\<rparr> 1 2 3 0) = Some [85, 170, 6, 2, 18, 1, 2, 3, 0, 60, 137]"
    by code_simp
  have h2: "HEADER_SIZE \<le> 6"
    by (simp add: HEADER_SIZE_def)
  have h3: "6 < length [85, 170, 6, 2, 18, 1, 2, 3, 0, 60, 137]"
    by simp
  have h4: "(0xFF :: byte) \<noteq> [85, 170, 6, 2, 18, 1, 2, 3, 0, 60, 137] ! 6"
    by simp
  from single_byte_corruption_rejected [OF h1 h2 h3 h4]
  have "unpack_packet (header (CommandPacket \<lparr>preamble = 0xAA55, payload_size = 6, packet_type = 2, network_id = 18\<rparr> 1 2 3 0)) (drop HEADER_SIZE ([85, 170, 6, 2, 18, 1, 2, 3, 0, 60, 137][6 := 0xFF])) = None"
    by blast
  then show ?thesis
    using h1 h2 h3 h4 by blast
qed

subsection \<open>C3: what a rejection returns\<close>

text \<open>
  C3 as stated: the value \<open>unpack_packet\<close> returns on rejection tells a CRC mismatch,
  an unknown packet type and a wrong \<open>payload_size\<close> apart.  This fails: every
  rejecting branch is \<open>return None\<close>.  Below, the first input has a wrong CRC, the
  second a right CRC and the unknown type 0, the third a right CRC, the type
  \<open>COMMAND\<close> and the size 7 instead of 6; the three results are equal.
\<close>

theorem rejection_causes_counterexample:
  "pack_header \<lparr>preamble = 0xAA55, payload_size = 6, packet_type = 2, network_id = 18\<rparr> = Some [85, 170, 6, 2, 18]
   \<and> calculate_crc16 ([85, 170, 6, 2, 18] @ but_last2 [1, 2, 3, 0, 0, 0] @ [0, 0])
       \<noteq> le_int (last2 [1, 2, 3, 0, 0, 0])
   \<and> pack_header \<lparr>preamble = 0xAA55, payload_size = 2, packet_type = 0, network_id = 18\<rparr> = Some [85, 170, 2, 0, 18]
   \<and> calculate_crc16 ([85, 170, 2, 0, 18] @ but_last2 [40, 25] @ [0, 0]) = le_int (last2 [40, 25])
   \<and> expected_size (packet_type \<lparr>preamble = 0xAA55, payload_size = 2, packet_type = 0, network_id = 18\<rparr>) = None \<and> packet_type \<lparr>preamble = 0xAA55, payload_size = 2, packet_type = 0, network_id = 18\<rparr> \<noteq> BULK_DATA
   \<and> pack_header \<lparr>preamble = 0xAA55, payload_size = 7, packet_type = 2, network_id = 18\<rparr> = Some [85, 170, 7, 2, 18]
   \<and> calculate_crc16 ([85, 170, 7, 2, 18] @ but_last2 [1, 2, 3, 0, 9, 136, 219] @ [0, 0])
       = le_int (last2 [1, 2, 3, 0, 9, 136, 219])
   \<and> packet_type \<lparr>preamble = 0xAA55, payload_size = 7, packet_type = 2, network_id = 18\<rparr> = COMMAND \<and> payload_size \<lparr>preamble = 0xAA55, payload_size = 7, packet_type = 2, network_id = 18\<rparr> \<noteq> COMMAND_SIZE
   \<and> unpack_packet \<lparr>preamble = 0xAA55, payload_size = 6, packet_type = 2, network_id = 18\<rparr> [1, 2, 3, 0, 0, 0] = unpack_packet \<lparr>preamble = 0xAA55, payload_size = 2, packet_type = 0, network_id = 18\<rparr> [40, 25]
   \<and> unpack_packet \<lparr>preamble = 0xAA55, payload_size = 2, packet_type = 0, network_id = 18\<rparr> [40, 25] = unpack_packet \<lparr>preamble = 0xAA55, payload_size = 7, packet_type = 2, network_id = 18\<rparr> [1, 2, 3, 0, 9, 136, 219]"
  by code_simp

text \<open>
  C3 as amended: \<open>unpack_packet\<close> returns the one value \<open>None\<close> for every rejection.
  For a payload of at least two bytes and a header that can be packed, a CRC mismatch
  gives \<open>None\<close>, a matching CRC with a packet type outside 1..9 gives \<open>None\<close>, and a
  matching CRC with a \<open>payload_size\<close> other than the size of the packet type gives
  \<open>None\<close>: the returned value does not tell the causes apart.  The caller,
  \<open>_handle_packet\<close> of link.py, given the header bytes followed by that payload, does
  one and the same thing whenever \<open>unpack_packet\<close> returned \<open>None\<close>: it adds one to
  \<open>packets_corrupted\<close> and changes nothing else.
\<close>

theorem rejection_is_always_None:
  assumes "2 \<le> length payload" "pack_header h = Some hdr"
  shows "(calculate_crc16 (hdr @ but_last2 payload @ [0, 0]) \<noteq> le_int (last2 payload)
            \<longrightarrow> unpack_packet h payload = None)
       \<and> (calculate_crc16 (hdr @ but_last2 payload @ [0, 0]) = le_int (last2 payload)
            \<and> (packet_type h < 1 \<or> 9 < packet_type h)
            \<longrightarrow> unpack_packet h payload = None)
       \<and> (calculate_crc16 (hdr @ but_last2 payload @ [0, 0]) = le_int (last2 payload)
            \<and> expected_size (packet_type h) = Some sz \<and> payload_size h \<noteq> sz
            \<longrightarrow> unpack_packet h payload = None)
       \<and> (unpack_packet h payload = None \<longrightarrow>
            handle_packet (hdr @ payload) l = l\<lparr>packets_corrupted := packets_corrupted l + 1\<rparr>)"
proof -
  have lh: "length hdr = 5"
    using assms(2) by (rule length_pack_header)
  have r: "0 \<le> preamble h" "preamble h < 65536" "u8 (payload_size h)" "u8 (packet_type h)"
      "u8 (network_id h)"
    and hdr: "hdr = le_bytes 2 (preamble h) @ le_bytes 1 (payload_size h)
        @ le_bytes 1 (packet_type h) @ le_bytes 1 (network_id h)"
    using assms(2)
    by (auto simp: pack_header_def pack_uint_def u8_def split: Option.bind_splits if_splits)
  have f: "le_int (py_slice 0 2 (take HEADER_SIZE (hdr @ payload))) = preamble h"
      "le_int (py_slice 2 3 (take HEADER_SIZE (hdr @ payload))) = payload_size h"
      "le_int (py_slice 3 4 (take HEADER_SIZE (hdr @ payload))) = packet_type h"
      "le_int (py_slice 4 5 (take HEADER_SIZE (hdr @ payload))) = network_id h"
    using r by (simp_all add: hdr HEADER_SIZE_def py_slice_def le_int_le_bytes)
  have hobj: "\<lparr>preamble = preamble h, payload_size = payload_size h,
               packet_type = packet_type h, network_id = network_id h\<rparr> = h"
    by simp
  have dr: "drop HEADER_SIZE (hdr @ payload) = payload"
    using lh by (simp add: HEADER_SIZE_def)
  have 4: "handle_packet (hdr @ payload) l = l\<lparr>packets_corrupted := packets_corrupted l + 1\<rparr>"
    if "unpack_packet h payload = None"
    unfolding handle_packet_def
    by (simp only: Let_def f hobj dr that) simp
  have 123: "(calculate_crc16 (hdr @ but_last2 payload @ [0, 0]) \<noteq> le_int (last2 payload)
            \<longrightarrow> unpack_packet h payload = None)
       \<and> (calculate_crc16 (hdr @ but_last2 payload @ [0, 0]) = le_int (last2 payload)
            \<and> (packet_type h < 1 \<or> 9 < packet_type h)
            \<longrightarrow> unpack_packet h payload = None)
       \<and> (calculate_crc16 (hdr @ but_last2 payload @ [0, 0]) = le_int (last2 payload)
            \<and> expected_size (packet_type h) = Some sz \<and> payload_size h \<noteq> sz
            \<longrightarrow> unpack_packet h payload = None)"
    using assms
    by (auto simp: unpack_packet_def unpack_typed_def expected_size_def packet_consts Let_def
        split: if_splits)
  show ?thesis
    using 123 4 by blast
qed

theorem rejection_is_always_None_witness:
  "2 \<le> length [1, 2, 3, 0, 9, 136, 219 :: byte]
   \<and> pack_header \<lparr>preamble = 0xAA55, payload_size = 7, packet_type = 2, network_id = 18\<rparr> = Some [85, 170, 7, 2, 18]
   \<and> calculate_crc16 ([85, 170, 7, 2, 18] @ but_last2 [1, 2, 3, 0, 9, 136, 219] @ [0, 0])
       = le_int (last2 [1, 2, 3, 0, 9, 136, 219])
   \<and> expected_size (packet_type \<lparr>preamble = 0xAA55, payload_size = 7, packet_type = 2, network_id = 18\<rparr>) = Some 6 \<and> payload_size \<lparr>preamble = 0xAA55, payload_size = 7, packet_type = 2, network_id = 18\<rparr> \<noteq> 6
   \<and> unpack_packet \<lparr>preamble = 0xAA55, payload_size = 7, packet_type = 2, network_id = 18\<rparr> [1, 2, 3, 0, 9, 136, 219] = None
   \<and> handle_packet ([85, 170, 7, 2, 18] @ [1, 2, 3, 0, 9, 136, 219])
         \<lparr>rx_buffer = [], packets_received = 0, bytes_received = 0, packets_corrupted = 0, delivered = []\<rparr>
       = \<lparr>rx_buffer = [], packets_received = 0, bytes_received = 0, packets_corrupted = 1, delivered = []\<rparr>"
proof -
  have a: "2 \<le> length [1, 2, 3, 0, 9, 136, 219 :: byte]"
    by simp
  have b: "pack_header \<lparr>preamble = 0xAA55, payload_size = 7, packet_type = 2, network_id = 18\<rparr> = Some [85, 170, 7, 2, 18]"
    by code_simp
  have c: "calculate_crc16 ([85, 170, 7, 2, 18] @ but_last2 [1, 2, 3, 0, 9, 136, 219] @ [0, 0])
       = le_int (last2 [1, 2, 3, 0, 9, 136, 219])"
    by code_simp
  have d: "expected_size (packet_type \<lparr>preamble = 0xAA55, payload_size = 7, packet_type = 2, network_id = 18\<rparr>) = Some 6" "payload_size \<lparr>preamble = 0xAA55, payload_size = 7, packet_type = 2, network_id = 18\<rparr> \<noteq> 6"
    by code_simp+
  note t = rejection_is_always_None [OF a b, of 6
      "\<lparr>rx_buffer = [], packets_received = 0, bytes_received = 0, packets_corrupted = 0, delivered = []\<rparr>"]
  from t c d
  have e: "unpack_packet \<lparr>preamble = 0xAA55, payload_size = 7, packet_type = 2, network_id = 18\<rparr> [1, 2, 3, 0, 9, 136, 219] = None"
    by blast
  from t e
  have "handle_packet ([85, 170, 7, 2, 18] @ [1, 2, 3, 0, 9, 136, 219])
         \<lparr>rx_buffer = [], packets_received = 0, bytes_received = 0, packets_corrupted = 0, delivered = []\<rparr>
       = \<lparr>rx_buffer = [], packets_received = 0, bytes_received = 0, packets_corrupted = 0, delivered = []\<rparr>\<lparr>packets_corrupted := packets_corrupted \<lparr>rx_buffer = [], packets_received = 0, bytes_received = 0, packets_corrupted = 0, delivered = []\<rparr> + 1\<rparr>"
    by blast
  then have f: "handle_packet ([85, 170, 7, 2, 18] @ [1, 2, 3, 0, 9, 136, 219])
         \<lparr>rx_buffer = [], packets_received = 0, bytes_received = 0, packets_corrupted = 0, delivered = []\<rparr>
       = \<lparr>rx_buffer = [], packets_received = 0, bytes_received = 0, packets_corrupted = 1, delivered = []\<rparr>"
    by simp
  show ?thesis
    using a b c d e f by blast
qed

subsection \<open>C4: resynchronisation\<close>

text \<open>
  C4 as stated: for valid encoded packets A and B and arbitrary garbage G1 and G2, one
  call of \<open>_process_received_data\<close> on G1 + A + G2 + B delivers exactly A and B.  This
  fails when the garbage contains the preamble: the framer takes the five garbage bytes
  55 AA 02 00 00 for a header with \<open>payload_size = 2\<close>, cuts a 7-byte packet that
  swallows the preamble of A, counts it as corrupted, and A is never delivered.
\<close>

theorem resync_preamble_in_garbage_counterexample:
  "pack_packet (CommandPacket \<lparr>preamble = 0xAA55, payload_size = 6, packet_type = 2, network_id = 18\<rparr> 1 2 3 0) = Some [85, 170, 6, 2, 18, 1, 2, 3, 0, 60, 137]
   \<and> pack_packet (PingPacket \<lparr>preamble = 0xAA55, payload_size = 6, packet_type = 7, network_id = 18\<rparr> 1000 0) = Some [85, 170, 6, 7, 18, 232, 3, 0, 0, 89, 176]
   \<and> delivered (process_received_data ([0x55, 0xAA, 2, 0, 0] @ [85, 170, 6, 2, 18, 1, 2, 3, 0, 60, 137] @ [0] @ [85, 170, 6, 7, 18, 232, 3, 0, 0, 89, 176]) \<lparr>rx_buffer = [], packets_received = 0, bytes_received = 0, packets_corrupted = 0, delivered = []\<rparr>)
       = [Typed (PingPacket \<lparr>preamble = 0xAA55, payload_size = 6, packet_type = 7, network_id = 18\<rparr> 1000 45145)]
   \<and> packets_corrupted (process_received_data ([0x55, 0xAA, 2, 0, 0] @ [85, 170, 6, 2, 18, 1, 2, 3, 0, 60, 137] @ [0] @ [85, 170, 6, 7, 18, 232, 3, 0, 0, 89, 176]) \<lparr>rx_buffer = [], packets_received = 0, bytes_received = 0, packets_corrupted = 0, delivered = []\<rparr>)
       = 1"
  by code_simp

text \<open>
  C4 as amended: for packets \<open>a\<close> and \<open>b\<close> that satisfy \<open>wire_ok\<close>, with encodings A and
  B, garbage G1 and G2 in which the two preamble bytes 55 AA do not occur next to each
  other, and an empty receive buffer, one call of \<open>_process_received_data\<close> on
  G1 + A + G2 + B hands exactly the decoded A and the decoded B to
  \<open>_handle_received_packet\<close>, in this order, counts two received packets and their
  bytes, leaves \<open>packets_corrupted\<close> as it was and leaves the buffer empty.
\<close>

theorem resync_without_preamble_in_garbage:
  assumes "wire_ok a" "pack_packet a = Some A" "wire_ok b" "pack_packet b = Some B"
    and "find_bytes G1 preamble_bytes = - 1" "find_bytes G2 preamble_bytes = - 1"
    and "rx_buffer l = []"
  shows "process_received_data (G1 @ A @ G2 @ B) l =
           l\<lparr>packets_received := packets_received l + 2,
             bytes_received := bytes_received l + int (length A) + int (length B),
             delivered := delivered l @ [Typed (with_crc a (calculate_crc16 A)),
                                         Typed (with_crc b (calculate_crc16 B))]\<rparr>"
proof -
  let ?l0 = "l\<lparr>rx_buffer := G1 @ A @ G2 @ B\<rparr>"
  let ?l1 = "handle_packet A (?l0\<lparr>rx_buffer := G2 @ B\<rparr>)"
  let ?l2 = "handle_packet B (?l1\<lparr>rx_buffer := []\<rparr>)"
  have e1: "extract_packet (rx_buffer ?l0) = (Some A, G2 @ B)"
    using extract_packet_after_garbage [OF assms(1,2,5), of "G2 @ B"] by simp
  have e2: "extract_packet (rx_buffer ?l1) = (Some B, [])"
    using extract_packet_after_garbage [OF assms(3,4,6), of "[]"] by simp
  have e3: "extract_packet (rx_buffer ?l2) = (None, [])"
    by (simp add: extract_packet_empty)
  have "process_received_data (G1 @ A @ G2 @ B) l = process_loop ?l0"
    by (simp add: process_received_data_def assms(7))
  also have "\<dots> = process_loop ?l1"
    using e1 by (rule process_loop_step)
  also have "\<dots> = process_loop ?l2"
    using e2 by (rule process_loop_step)
  also have "\<dots> = ?l2\<lparr>rx_buffer := []\<rparr>"
    using e3 by (rule process_loop_stop)
  also have "\<dots> = l\<lparr>packets_received := packets_received l + 2,
             bytes_received := bytes_received l + int (length A) + int (length B),
             delivered := delivered l @ [Typed (with_crc a (calculate_crc16 A)),
                                         Typed (with_crc b (calculate_crc16 B))]\<rparr>"
    using assms(7)
    by (simp add: handle_packet_valid [OF assms(1,2)] handle_packet_valid [OF assms(3,4)])
  finally show ?thesis .
qed

theorem resync_without_preamble_in_garbage_witness:
  "wire_ok (CommandPacket \<lparr>preamble = 0xAA55, payload_size = 6, packet_type = 2, network_id = 18\<rparr> 1 2 3 0) \<and> pack_packet (CommandPacket \<lparr>preamble = 0xAA55, payload_size = 6, packet_type = 2, network_id = 18\<rparr> 1 2 3 0) = Some [85, 170, 6, 2, 18, 1, 2, 3, 0, 60, 137]
   \<and> wire_ok (PingPacket \<lparr>preamble = 0xAA55, payload_size = 6, packet_type = 7, network_id = 18\<rparr> 1000 0) \<and> pack_packet (PingPacket \<lparr>preamble = 0xAA55, payload_size = 6, packet_type = 7, network_id = 18\<rparr> 1000 0) = Some [85, 170, 6, 7, 18, 232, 3, 0, 0, 89, 176]
   \<and> find_bytes [1, 2, 3] preamble_bytes = - 1
   \<and> find_bytes [0x55] preamble_bytes = - 1
   \<and> rx_buffer \<lparr>rx_buffer = [], packets_received = 0, bytes_received = 0, packets_corrupted = 0, delivered = []\<rparr> = []
   \<and> process_received_data ([1, 2, 3] @ [85, 170, 6, 2, 18, 1, 2, 3, 0, 60, 137] @ [0x55] @ [85, 170, 6, 7, 18, 232, 3, 0, 0, 89, 176]) \<lparr>rx_buffer = [], packets_received = 0, bytes_received = 0, packets_corrupted = 0, delivered = []\<rparr>
       = \<lparr>rx_buffer = [], packets_received = 2, bytes_received = 22, packets_corrupted = 0,
          delivered = [Typed (CommandPacket \<lparr>preamble = 0xAA55, payload_size = 6, packet_type = 2, network_id = 18\<rparr> 1 2 3 35132), Typed (PingPacket \<lparr>preamble = 0xAA55, payload_size = 6, packet_type = 7, network_id = 18\<rparr> 1000 45145)]\<rparr>"
proof -
  have h1: "wire_ok (CommandPacket \<lparr>preamble = 0xAA55, payload_size = 6, packet_type = 2, network_id = 18\<rparr> 1 2 3 0)"
    by code_simp
  have h2: "pack_packet (CommandPacket \<lparr>preamble = 0xAA55, payload_size = 6, packet_type = 2, network_id = 18\<rparr> 1 2 3 0) = Some [85, 170, 6, 2, 18, 1, 2, 3, 0, 60, 137]"
    by code_simp
  have h3: "wire_ok (PingPacket \<lparr>preamble = 0xAA55, payload_size = 6, packet_type = 7, network_id = 18\<rparr> 1000 0)"
    by code_simp
  have h4: "pack_packet (PingPacket \<lparr>preamble = 0xAA55, payload_size = 6, packet_type = 7, network_id = 18\<rparr> 1000 0) = Some [85, 170, 6, 7, 18, 232, 3, 0, 0, 89, 176]"
    by code_simp
  have h5: "find_bytes [1, 2, 3] preamble_bytes = - 1"
    by code_simp
  have h6: "find_bytes [0x55] preamble_bytes = - 1"
    by code_simp
  have h7: "rx_buffer \<lparr>rx_buffer = [], packets_received = 0, bytes_received = 0, packets_corrupted = 0, delivered = []\<rparr> = []"
    by simp
  have c: "calculate_crc16 [85, 170, 6, 2, 18, 1, 2, 3, 0, 60, 137] = 35132" "calculate_crc16 [85, 170, 6, 7, 18, 232, 3, 0, 0, 89, 176] = 45145"
    by code_simp+
  have "process_received_data ([1, 2, 3] @ [85, 170, 6, 2, 18, 1, 2, 3, 0, 60, 137] @ [0x55] @ [85, 170, 6, 7, 18, 232, 3, 0, 0, 89, 176]) \<lparr>rx_buffer = [], packets_received = 0, bytes_received = 0, packets_corrupted = 0, delivered = []\<rparr>
       = \<lparr>rx_buffer = [], packets_received = 2, bytes_received = 22, packets_corrupted = 0,
          delivered = [Typed (CommandPacket \<lparr>preamble = 0xAA55, payload_size = 6, packet_type = 2, network_id = 18\<rparr> 1 2 3 35132), Typed (PingPacket \<lparr>preamble = 0xAA55, payload_size = 6, packet_type = 7, network_id = 18\<rparr> 1000 45145)]\<rparr>"
    unfolding resync_without_preamble_in_garbage [OF h1 h2 h3 h4 h5 h6 h7]
    by (simp add: c)
  then show ?thesis
    using h1 h2 h3 h4 h5 h6 h7 by blast
qed

subsection \<open>C5: discovery\<close>

text \<open>
  C5: a Telemetry packet from an id other than the drone's own leaves, for that id, the
  entry built from the packet (its \<open>x\<close>, \<open>y\<close>, \<open>z\<close>, \<open>vx\<close>, \<open>vy\<close>, \<open>vz\<close> in the fields of the
  same name, yaw and yaw rate 0, \<open>last_seen\<close> the current time, discovered via telemetry),
  whether the id had an entry or not, and
  leaves every other id as it was; a Status packet from an id with no entry leaves the
  drone unchanged; a Status packet from an id with an entry changes only the
  \<open>last_seen\<close> of that entry.  The drone's own id never enters the table, so the side
  condition of the third part excludes nothing that can occur.
\<close>

theorem discovery_semantics:
  fixes d :: "float32 Drone"
  shows "(i \<noteq> self_drone_id d \<longrightarrow>
            map_of (other_drones (handle_telemetry_packet now (TelemetryPacket h i x y z vx vy vz c) d)) i
              = Some \<lparr>drone_id = i, position = \<lparr>pos_x = x, pos_y = y, pos_z = z, pos_vx = vx, pos_vy = vy, pos_vz = vz,
                 pos_yaw = 0, pos_yaw_rate = 0, frame_id = ''aruco_map''\<rparr>, last_seen = now,
                       discovered_via = VIA_TELEMETRY\<rparr>
          \<and> (\<forall>j. j \<noteq> i \<longrightarrow>
                map_of (other_drones (handle_telemetry_packet now (TelemetryPacket h i x y z vx vy vz c) d)) j
                  = map_of (other_drones d) j))
       \<and> (map_of (other_drones d) i = None \<longrightarrow>
            handle_status_packet now (StatusPacket h i s b e c) d = d)
       \<and> (i \<noteq> self_drone_id d \<and> map_of (other_drones d) i = Some info \<longrightarrow>
            map_of (other_drones (handle_status_packet now (StatusPacket h i s b e c) d)) i
              = Some (info\<lparr>last_seen := now\<rparr>)
          \<and> (\<forall>j. j \<noteq> i \<longrightarrow>
                map_of (other_drones (handle_status_packet now (StatusPacket h i s b e c) d)) j
                  = map_of (other_drones d) j))
       \<and> (map_of (other_drones d) (self_drone_id d) = None \<longrightarrow>
            map_of (other_drones (handle_telemetry_packet now p d)) (self_drone_id d) = None
          \<and> map_of (other_drones (handle_status_packet now p d)) (self_drone_id d) = None)"
proof -
  have t: "map_of (other_drones (handle_telemetry_packet now p d)) (self_drone_id d) = None"
    if "map_of (other_drones d) (self_drone_id d) = None"
    using that by (cases p) (simp_all add: update_conv' Let_def)
  have s: "map_of (other_drones (handle_status_packet now p d)) (self_drone_id d) = None"
    if "map_of (other_drones d) (self_drone_id d) = None"
    using that by (cases p) (simp_all add: update_conv' split: option.splits)
  show ?thesis
    using t s by (simp add: update_conv' Let_def new_position_def)
qed

theorem discovery_semantics_witness:
  "(7 :: int) \<noteq> self_drone_id \<lparr>self_drone_id = 1, other_drones = [], drone_expiry_timeout = 5\<rparr>
   \<and> map_of (other_drones (handle_telemetry_packet 10
        (TelemetryPacket \<lparr>preamble = 0xAA55, payload_size = 27, packet_type = 1, network_id = 18\<rparr>
           7 1 2 3 4 5 6 0)
        \<lparr>self_drone_id = 1, other_drones = [], drone_expiry_timeout = 5\<rparr>)) 7
      = Some \<lparr>drone_id = 7, position = \<lparr>pos_x = 1, pos_y = 2, pos_z = 3, pos_vx = 4, pos_vy = 5, pos_vz = 6,
                 pos_yaw = 0, pos_yaw_rate = 0, frame_id = ''aruco_map''\<rparr>, last_seen = 10,
               discovered_via = VIA_TELEMETRY\<rparr>
   \<and> map_of (other_drones \<lparr>self_drone_id = 1, other_drones = [] :: (int \<times> float32 DroneInfo) list,
                             drone_expiry_timeout = 5\<rparr>) 9 = None
   \<and> handle_status_packet 11
        (StatusPacket \<lparr>preamble = 0xAA55, payload_size = 8, packet_type = 3, network_id = 18\<rparr>
           9 0 3700 0 0)
        \<lparr>self_drone_id = 1, other_drones = [] :: (int \<times> float32 DroneInfo) list,
         drone_expiry_timeout = 5\<rparr>
      = \<lparr>self_drone_id = 1, other_drones = [], drone_expiry_timeout = 5\<rparr>
   \<and> map_of (other_drones
        \<lparr>self_drone_id = 1,
         other_drones = [(7, \<lparr>drone_id = 7, position = \<lparr>pos_x = 1, pos_y = 2, pos_z = 3, pos_vx = 4, pos_vy = 5, pos_vz = 6,
                 pos_yaw = 0, pos_yaw_rate = 0, frame_id = ''aruco_map''\<rparr> :: float32 DronePosition,
                               last_seen = 10, discovered_via = VIA_TELEMETRY\<rparr>)],
         drone_expiry_timeout = 5\<rparr>) 7
      = Some \<lparr>drone_id = 7, position = \<lparr>pos_x = 1, pos_y = 2, pos_z = 3, pos_vx = 4, pos_vy = 5, pos_vz = 6,
                 pos_yaw = 0, pos_yaw_rate = 0, frame_id = ''aruco_map''\<rparr>, last_seen = 10,
               discovered_via = VIA_TELEMETRY\<rparr>
   \<and> map_of (other_drones (handle_status_packet 12
        (StatusPacket \<lparr>preamble = 0xAA55, payload_size = 8, packet_type = 3, network_id = 18\<rparr>
           7 0 3700 0 0)
        \<lparr>self_drone_id = 1,
         other_drones = [(7, \<lparr>drone_id = 7, position = \<lparr>pos_x = 1, pos_y = 2, pos_z = 3, pos_vx = 4, pos_vy = 5, pos_vz = 6,
                 pos_yaw = 0, pos_yaw_rate = 0, frame_id = ''aruco_map''\<rparr> :: float32 DronePosition,
                               last_seen = 10, discovered_via = VIA_TELEMETRY\<rparr>)],
         drone_expiry_timeout = 5\<rparr>)) 7
      = Some \<lparr>drone_id = 7, position = \<lparr>pos_x = 1, pos_y = 2, pos_z = 3, pos_vx = 4, pos_vy = 5, pos_vz = 6,
                 pos_yaw = 0, pos_yaw_rate = 0, frame_id = ''aruco_map''\<rparr>, last_seen = 12,
               discovered_via = VIA_TELEMETRY\<rparr>"
proof -
  let ?d = "\<lparr>self_drone_id = 1, other_drones = [] :: (int \<times> float32 DroneInfo) list,
             drone_expiry_timeout = 5\<rparr>"
  have a: "(7 :: int) \<noteq> self_drone_id ?d"
    by simp
  have b: "map_of (other_drones ?d) 9 = None"
    by simp
  let ?th = "\<lparr>preamble = 0xAA55, payload_size = 27, packet_type = 1, network_id = 18\<rparr>"
  let ?sh = "\<lparr>preamble = 0xAA55, payload_size = 8, packet_type = 3, network_id = 18\<rparr>"
  have "7 \<noteq> self_drone_id ?d \<longrightarrow>
      map_of (other_drones (handle_telemetry_packet 10 (TelemetryPacket ?th 7 1 2 3 4 5 6 0) ?d)) 7
        = Some \<lparr>drone_id = 7, position = \<lparr>pos_x = 1, pos_y = 2, pos_z = 3, pos_vx = 4, pos_vy = 5, pos_vz = 6,
                 pos_yaw = 0, pos_yaw_rate = 0, frame_id = ''aruco_map''\<rparr>, last_seen = 10,
                 discovered_via = VIA_TELEMETRY\<rparr>
      \<and> (\<forall>j. j \<noteq> 7 \<longrightarrow>
            map_of (other_drones (handle_telemetry_packet 10 (TelemetryPacket ?th 7 1 2 3 4 5 6 0) ?d)) j
              = map_of (other_drones ?d) j)"
    by (rule conjunct1 [OF discovery_semantics [where i = 7 and d = ?d and now = 10 and x = 1
            and y = 2 and z = 3 and vx = 4 and vy = 5 and vz = 6 and c = 0 and h = ?th
            and s = 0 and b = 0 and e = 0 and info = "\<lparr>drone_id = 7, position = \<lparr>pos_x = 1, pos_y = 2, pos_z = 3, pos_vx = 4, pos_vy = 5, pos_vz = 6,
                 pos_yaw = 0, pos_yaw_rate = 0, frame_id = ''aruco_map''\<rparr>, last_seen = 10,
              discovered_via = VIA_TELEMETRY\<rparr>"
            and p = "TelemetryPacket ?th 7 1 2 3 4 5 6 0"]])
  with a have t: "map_of (other_drones (handle_telemetry_packet 10 (TelemetryPacket ?th 7 1 2 3 4 5 6 0) ?d)) 7
        = Some \<lparr>drone_id = 7, position = \<lparr>pos_x = 1, pos_y = 2, pos_z = 3, pos_vx = 4, pos_vy = 5, pos_vz = 6,
                 pos_yaw = 0, pos_yaw_rate = 0, frame_id = ''aruco_map''\<rparr>, last_seen = 10,
                 discovered_via = VIA_TELEMETRY\<rparr>"
    by blast
  have "map_of (other_drones ?d) 9 = None \<longrightarrow>
      handle_status_packet 11 (StatusPacket ?sh 9 0 3700 0 0) ?d = ?d"
    by (rule conjunct1 [OF conjunct2 [OF discovery_semantics [where i = 9 and d = ?d and now = 11
            and x = 0 and y = 0 and z = 0 and vx = 0 and vy = 0 and vz = 0 and c = 0 and h = ?sh
            and s = 0 and b = 3700 and e = 0 and info = "\<lparr>drone_id = 7, position = \<lparr>pos_x = 1, pos_y = 2, pos_z = 3, pos_vx = 4, pos_vy = 5, pos_vz = 6,
                 pos_yaw = 0, pos_yaw_rate = 0, frame_id = ''aruco_map''\<rparr>, last_seen = 10,
              discovered_via = VIA_TELEMETRY\<rparr>"
            and p = "TelemetryPacket ?th 7 1 2 3 4 5 6 0"]]])
  with b have s: "handle_status_packet 11 (StatusPacket ?sh 9 0 3700 0 0) ?d = ?d"
    by blast
  let ?info = "\<lparr>drone_id = 7, position = \<lparr>pos_x = 1, pos_y = 2, pos_z = 3, pos_vx = 4, pos_vy = 5, pos_vz = 6,
                 pos_yaw = 0, pos_yaw_rate = 0, frame_id = ''aruco_map''\<rparr> :: float32 DronePosition,
                 last_seen = 10, discovered_via = VIA_TELEMETRY\<rparr>"
  let ?d1 = "\<lparr>self_drone_id = 1, other_drones = [(7, ?info)], drone_expiry_timeout = 5\<rparr>"
  have c: "7 \<noteq> self_drone_id ?d1 \<and> map_of (other_drones ?d1) 7 = Some ?info"
    by simp
  have "7 \<noteq> self_drone_id ?d1 \<and> map_of (other_drones ?d1) 7 = Some ?info \<longrightarrow>
      map_of (other_drones (handle_status_packet 12 (StatusPacket ?sh 7 0 3700 0 0) ?d1)) 7
        = Some (?info\<lparr>last_seen := 12\<rparr>)
      \<and> (\<forall>j. j \<noteq> 7 \<longrightarrow>
            map_of (other_drones (handle_status_packet 12 (StatusPacket ?sh 7 0 3700 0 0) ?d1)) j
              = map_of (other_drones ?d1) j)"
    by (rule conjunct1 [OF conjunct2 [OF conjunct2 [OF discovery_semantics [where i = 7
            and d = ?d1 and now = 12 and x = 0 and y = 0 and z = 0 and vx = 0 and vy = 0 and vz = 0
            and c = 0 and h = ?sh and s = 0 and b = 3700 and e = 0 and info = ?info
            and p = "TelemetryPacket ?th 7 1 2 3 4 5 6 0"]]]])
  with c have u: "map_of (other_drones (handle_status_packet 12 (StatusPacket ?sh 7 0 3700 0 0) ?d1)) 7
        = Some (?info\<lparr>last_seen := 12\<rparr>)"
    by blast
  show ?thesis
    using a b c t s u by simp
qed

subsection \<open>C6: the expiry sweep\<close>

text \<open>
  C6: one run of \<open>_cleanup_expired_drones\<close> at time \<open>now\<close> removes exactly the entries
  with \<open>now - last_seen > expiry_timeout\<close> and leaves every other entry as it was (the
  keys of a dictionary are distinct); \<open>set_drone_expiry_timeout\<close> stores the maximum of
  1 and its argument; and with the timeout set to 3.0, an entry last seen at 0 is still
  there after a sweep at 2.9 and gone after a sweep at 3.1.  Clock readings are real
  numbers here.
\<close>

theorem expiry_sweep:
  assumes "distinct (map fst (other_drones d))"
  shows "map_of (other_drones (cleanup_expired_drones now d)) i =
           (case map_of (other_drones d) i of
              None \<Rightarrow> None
            | Some info \<Rightarrow>
                if now - last_seen info > drone_expiry_timeout d then None else Some info)
       \<and> drone_expiry_timeout (cleanup_expired_drones now d) = drone_expiry_timeout d
       \<and> drone_expiry_timeout (set_drone_expiry_timeout timeout d) = max 1 timeout
       \<and> (map_of (other_drones d) i = Some info \<and> last_seen info = 0 \<longrightarrow>
            map_of (other_drones (cleanup_expired_drones 2.9 (set_drone_expiry_timeout 3.0 d))) i
              = Some info
          \<and> map_of (other_drones (cleanup_expired_drones 3.1 (set_drone_expiry_timeout 3.0 d))) i
              = None)"
proof -
  let ?d3 = "set_drone_expiry_timeout 3.0 d"
  have dist3: "distinct (map fst (other_drones ?d3))"
    using assms by (simp add: set_drone_expiry_timeout_def)
  have ex: "map_of (other_drones (cleanup_expired_drones 2.9 ?d3)) i = Some info
          \<and> map_of (other_drones (cleanup_expired_drones 3.1 ?d3)) i = None"
    if "map_of (other_drones d) i = Some info" "last_seen info = 0"
    using that sweep_general [OF dist3, of "2.9" i] sweep_general [OF dist3, of "3.1" i]
    by (simp add: set_drone_expiry_timeout_def)
  show ?thesis
    using sweep_general [OF assms, of now i] ex
    by (simp add: cleanup_expired_drones_def set_drone_expiry_timeout_def Let_def)
qed

theorem expiry_sweep_witness:
  "distinct (map fst (other_drones
       \<lparr>self_drone_id = 1,
        other_drones = [(7, \<lparr>drone_id = 7, position = new_position 0 0 0 0 0 0, last_seen = 0,
                              discovered_via = VIA_TELEMETRY\<rparr>)],
        drone_expiry_timeout = 5\<rparr> :: (int \<times> float32 DroneInfo) list))
   \<and> map_of (other_drones (cleanup_expired_drones 2.9 (set_drone_expiry_timeout 3.0
       \<lparr>self_drone_id = 1,
        other_drones = [(7, \<lparr>drone_id = 7, position = new_position 0 0 0 0 0 0, last_seen = 0,
                              discovered_via = VIA_TELEMETRY\<rparr>)],
        drone_expiry_timeout = 5\<rparr>))) 7
      = Some \<lparr>drone_id = 7, position = new_position 0 0 0 0 0 0 :: float32 DronePosition,
               last_seen = 0, discovered_via = VIA_TELEMETRY\<rparr>
   \<and> map_of (other_drones (cleanup_expired_drones 3.1 (set_drone_expiry_timeout 3.0
       \<lparr>self_drone_id = 1,
        other_drones = [(7, \<lparr>drone_id = 7, position = new_position 0 0 0 0 0 0 :: float32 DronePosition,
                              last_seen = 0, discovered_via = VIA_TELEMETRY\<rparr>)],
        drone_expiry_timeout = 5\<rparr>))) 7
      = None"
proof -
  let ?info = "\<lparr>drone_id = 7, position = new_position 0 0 0 0 0 0 :: float32 DronePosition,
                 last_seen = 0, discovered_via = VIA_TELEMETRY\<rparr>"
  let ?d = "\<lparr>self_drone_id = 1, other_drones = [(7, ?info)], drone_expiry_timeout = 5\<rparr>"
  have h: "distinct (map fst (other_drones ?d))"
    by simp
  have e: "map_of (other_drones ?d) 7 = Some ?info" "last_seen ?info = 0"
    by simp_all
  show ?thesis
    using h e expiry_sweep [OF h, of 0 7 0 ?info] by blast
qed

subsection \<open>C7: the speed bound\<close>



subsection \<open>C8: the acceleration bound\<close>




subsection \<open>C9: the shape of the repulsion force\<close>



subsection \<open>C10: the control law returns\<close>

text \<open>
  C10 as stated: \<open>get_avoidance_vector\<close> never raises, for any input.  This fails for
  \<open>dt = 0\<close>: the acceleration is \<open>(desired - previous) / dt\<close>, an unguarded division, and
  Python raises \<open>ZeroDivisionError\<close>.
\<close>

theorem zero_dt_counterexample:
  "get_avoidance_vector (0, 0, 0) (new_position 0 0 0 0 0 0) (new_position 1 0 0 0 0 0) [] 0 = None"
  by (simp add: get_avoidance_vector_def attraction_def limit_velocity_def new_position_def
      Let_def py_div_def ARRIVAL_RADIUS_def)

text \<open>
  C10 as amended: for every input with \<open>dt \<noteq> 0\<close>, \<open>get_avoidance_vector\<close> returns a value
  (no division by zero, no square root of a negative number, no negative base under the
  fractional exponent); with an empty peer snapshot the result is that of the attraction
  force alone; one pass of the peer loop never raises, whatever the distances (zero
  included); and \<open>calculate_repulsion_force\<close> never raises.  Floats are real numbers
  here, so floating point overflow is outside this statement.
\<close>

theorem never_raises_for_nonzero_dt:
  assumes "dt \<noteq> 0"
  shows "get_avoidance_vector previous_velocity my_pos target_pos others dt \<noteq> None
       \<and> (\<exists>dist attr_fx attr_fy. attraction my_pos target_pos = Some (dist, attr_fx, attr_fy)
            \<and> get_avoidance_vector previous_velocity my_pos target_pos [] dt
                = limit_velocity previous_velocity dist attr_fx attr_fy dt)
       \<and> (\<forall>f info. repulsion_step my_pos dt f info \<noteq> None)
       \<and> (\<forall>d. calculate_repulsion_force d \<noteq> None)"
proof -
  obtain pvx pvy pvz where p: "previous_velocity = (pvx, pvy, pvz)"
    by (cases previous_velocity)
  obtain d ax ay where a: "attraction my_pos target_pos = Some (d, ax, ay)"
    using attraction_total by blast
  obtain fx fy where r: "repulsion my_pos dt (0, 0) others = Some (fx, fy)"
    using repulsion_total [of my_pos dt "(0, 0)" others] by auto
  have 1: "get_avoidance_vector previous_velocity my_pos target_pos others dt \<noteq> None"
    using limit_velocity_eq [OF assms, of pvx pvy pvz d "fx + ax" "fy + ay"]
    by (simp add: get_avoidance_vector_def a r p)
  have 2: "get_avoidance_vector previous_velocity my_pos target_pos [] dt
                = limit_velocity previous_velocity d ax ay dt"
    by (simp add: get_avoidance_vector_def a)
  have 3: "repulsion_step my_pos dt f info \<noteq> None" for f info
    using repulsion_step_total [of my_pos dt f info] by auto
  have 4: "calculate_repulsion_force d \<noteq> None" for d
    by (simp add: calculate_repulsion_force_eq)
  show ?thesis using 1 2 3 4 a by simp
qed

theorem never_raises_for_nonzero_dt_witness:
  "(0.1 :: real) \<noteq> 0
   \<and> get_avoidance_vector (0, 0, 0) (new_position 0 0 0 0 0 0) (new_position 0 0 0 0 0 0)
        [(2, \<lparr>drone_id = 2, position = new_position 0 0 0 0 0 0, last_seen = 0,
               discovered_via = VIA_TELEMETRY\<rparr>)] 0.1 \<noteq> None"
proof -
  have h: "(0.1 :: real) \<noteq> 0"
    by simp
  show ?thesis
    using h never_raises_for_nonzero_dt [OF h] by blast
qed

end
